theory Spec2Isabelle
  imports Main "HOL-Library.Word"
begin

section \<open>The raylet bootstrap of \<^verbatim>\<open>src/ray/raylet/raylet.cc\<close>\<close>

subsection \<open>Machine types\<close>

text \<open>
  \<^verbatim>\<open>int\<close> is a 32-bit two's complement word (read with \<open>sint\<close>, compared with
  \<open><s\<close>), \<^verbatim>\<open>size_t\<close> and \<^verbatim>\<open>int64_t\<close> are 64-bit words, a port
  (\<^verbatim>\<open>unsigned short\<close>) is a 16-bit word.
\<close>

type_synonym c_int = "32 word"
type_synonym size_t = "64 word"
type_synonym int64_t = "64 word"
type_synonym port_t = "16 word"

text \<open>
  A \<^verbatim>\<open>const char *const *\<close>: the cell at offset \<open>i\<close> from the pointer holds either
  a name or \<^verbatim>\<open>nullptr\<close> (\<open>None\<close>). The offset is a \<open>nat\<close>: the \<^verbatim>\<open>size_t\<close>
  counter of the source is only ever used as an offset into one array, which has fewer
  than \<open>2 ^ 61\<close> cells of eight bytes, so it does not wrap.
\<close>

type_synonym name_array = "nat \<Rightarrow> string option"

subsection \<open>\<^verbatim>\<open>GenerateEnumNames\<close> (lines 12 to 30)\<close>

text \<open>
  Lines 15 to 17: \<^verbatim>\<open>for (int i = 0; i < start_index; ++i) enum_names.push_back("EmptyMessageType")\<close>.
  The counter and the bound are \<^verbatim>\<open>int\<close>, the comparison is signed.
\<close>

function placeholder_loop :: "c_int \<Rightarrow> c_int \<Rightarrow> string list \<Rightarrow> string list" where
  "placeholder_loop i start_index enum_names =
     (if i <s start_index
      then placeholder_loop (i + 1) start_index (enum_names @ [''EmptyMessageType''])
      else enum_names)"
  by pat_completeness auto

termination placeholder_loop
proof (relation "measure (\<lambda>(i, start_index, enum_names). nat (sint start_index - sint i))")
  show "wf (measure (\<lambda>(i, start_index, enum_names). nat (sint start_index - sint i)))"
    by simp
next
  fix i start_index :: c_int and enum_names :: "string list"
  assume less: "i <s start_index"
  have "sint i < sint start_index"
    using less by (simp add: word_sless_alt)
  moreover have "sint start_index < 2 ^ 31" and "- (2 ^ 31) \<le> sint i"
    using sint_lt [of start_index] sint_ge [of i] by simp_all
  moreover have "sint (i + 1) = signed_take_bit 31 (sint i + 1)"
    by (simp add: sint_word_ariths)
  ultimately have "sint (i + 1) = sint i + 1"
    by (simp add: signed_take_bit_int_eq_self)
  with \<open>sint i < sint start_index\<close> show "((i + 1, start_index, enum_names @ [''EmptyMessageType'']),
       (i, start_index, enum_names))
      \<in> measure (\<lambda>(i, start_index, enum_names). nat (sint start_index - sint i))"
    by simp
qed

declare placeholder_loop.simps [simp del]

text \<open>
  Lines 18 to 26: \<^verbatim>\<open>while (true)\<close> reads the cell at offset \<open>i\<close>, leaves the loop at
  the first \<^verbatim>\<open>nullptr\<close> and otherwise pushes the name and moves on. The loop has no
  bound of its own, so it is a partial function: \<open>None\<close> means that it never returns.
\<close>

partial_function (option) names_loop :: "name_array \<Rightarrow> nat \<Rightarrow> string list \<Rightarrow> string list option" where
  "names_loop enum_names_ptr i enum_names =
     (case enum_names_ptr i of
        None \<Rightarrow> Some enum_names
      | Some name \<Rightarrow> names_loop enum_names_ptr (i + 1) (enum_names @ [name]))"

declare names_loop.simps [code]

text \<open>
  \<^verbatim>\<open>ray::Status\<close>: this file only builds \<^verbatim>\<open>Status::OK()\<close> and asks \<^verbatim>\<open>ok()\<close> of the
  statuses that its collaborators return.
\<close>

datatype Status = OK | NotOK string

fun ok :: "Status \<Rightarrow> bool" where
  "ok OK = True"
| "ok (NotOK msg) = False"

text \<open>The three acceptors of the raylet: local channel, object manager, node manager.\<close>

datatype acceptor_id = LocalAcceptor | ObjectManagerAcceptor | NodeManagerAcceptor

text \<open>
  What stops a start. \<^verbatim>\<open>RAY_CHECK\<close> ends the process when its condition is false, with
  the message that was streamed into it; \<^verbatim>\<open>RAY_CHECK_OK\<close> ends it when a status is not
  ok. A constructor of the initialiser list that throws (a subsystem of lines 53 to 56,
  or an acceptor of lines 58 to 67 that cannot open, bind or listen) leaves the
  constructor before its body runs.
\<close>

datatype fatal =
    CheckFailed string
  | BadStatus Status
  | SubsystemThrew
  | AcceptorThrew acceptor_id

text \<open>
  Line 27: both sides of the comparison are \<^verbatim>\<open>size_t\<close>. \<^verbatim>\<open>static_cast<size_t>(end_index)\<close>
  sign-extends the \<^verbatim>\<open>int\<close>; \<^verbatim>\<open>enum_names.size() - 1\<close> is computed modulo \<open>2 ^ 64\<close>.
\<close>

definition size_check :: "c_int \<Rightarrow> string list \<Rightarrow> bool" where
  "size_check end_index enum_names \<longleftrightarrow>
     (scast end_index :: size_t) = (word_of_nat (length enum_names) :: size_t) - 1"

text \<open>
  The whole function: \<open>None\<close> when the name loop never returns, \<open>Some (Inl f)\<close> when
  the check ends the process, \<open>Some (Inr table)\<close> when the table is returned.
\<close>

definition GenerateEnumNames :: "name_array \<Rightarrow> c_int \<Rightarrow> c_int \<Rightarrow> (fatal + string list) option" where
  "GenerateEnumNames enum_names_ptr start_index end_index =
     (case names_loop enum_names_ptr 0 (placeholder_loop 0 start_index []) of
        None \<Rightarrow> None
      | Some enum_names \<Rightarrow>
          if size_check end_index enum_names
          then Some (Inr enum_names)
          else Some (Inl (CheckFailed ''Message Type mismatch!'')))"

text \<open>
  A raw array as the protocol compiler generates it: the names, then \<^verbatim>\<open>nullptr\<close>.
\<close>

definition raw_array :: "string list \<Rightarrow> name_array" where
  "raw_array names i = (if i < length names then Some (names ! i) else None)"

subsection \<open>What the file takes from elsewhere\<close>

text \<open>
  The generated protocol headers, the configuration structs, the directory client, the two
  subsystems and the transport library are not part of this file. Each is a parameter:
  the theorems hold for every value of it.

  A protocol family is one generated header: the name array of its \<^verbatim>\<open>MessageType\<close>
  enumeration and the values of the three enumerators that the file names.
\<close>

record protocol_family =
  EnumNamesMessageType :: name_array
  MessageType_MIN :: int
  MessageType_MAX :: int
  MessageType_DisconnectClient :: int

record generated =
  protocol :: protocol_family
  object_manager_protocol :: protocol_family

text \<open>
  The resource map of \<^verbatim>\<open>resource_config.GetResourceMap()\<close> is a hash map from names to
  capacities; it is given as the list of its pairs in the order in which the range-for
  of line 105 visits them. Capacities are only copied, so their type is left open. The
  configured ports are taken to be \<^verbatim>\<open>int\<close>, as lines 63 and 67 pass them to an endpoint
  that narrows them.
\<close>

record 'c NodeManagerConfig =
  resource_config :: "(string \<times> 'c) list"
  node_manager_port :: c_int

record ObjectManagerConfig =
  object_manager_port :: c_int
  store_socket_name :: string

text \<open>The fields of \<^verbatim>\<open>ClientTableDataT\<close> that lines 99 to 108 write.\<close>

record 'c ClientTableDataT =
  node_manager_address :: string
  raylet_socket_name :: string
  object_store_socket_name :: string
  object_manager_port :: int
  node_manager_port :: int
  resources_total_label :: "string list"
  resources_total_capacity :: "'c list"

text \<open>
  What the collaborators answer when they are called: the status of
  \<^verbatim>\<open>gcs_client_->Attach\<close>, the descriptor template of \<^verbatim>\<open>client_table().GetLocalClient()\<close>,
  the status of \<^verbatim>\<open>client_table().Connect\<close> for a descriptor, the status of
  \<^verbatim>\<open>node_manager_.RegisterGcs()\<close>; whether the constructors of the object directory and
  of the two subsystems return; whether the local acceptor can be constructed on a
  channel path; and, for a network acceptor constructed on a requested port, the port
  that the operating system binds, or \<open>None\<close> when the constructor throws (the port is
  in use, for instance by the other acceptor).
\<close>

record 'c collaborators =
  Attach :: Status
  GetLocalClient :: "'c ClientTableDataT"
  Connect :: "'c ClientTableDataT \<Rightarrow> Status"
  NodeManager_RegisterGcs :: Status
  subsystems_built :: bool
  local_bound :: "string \<Rightarrow> bool"
  bound_port :: "acceptor_id \<Rightarrow> port_t \<Rightarrow> port_t option"

text \<open>
  The closures of lines 131 to 139, 157 to 163 and 180 to 186 each forward to one method
  of one subsystem; a closure is modelled by the method it forwards to.
\<close>

datatype client_handler_t =
    NodeManager_ProcessNewClient
  | NodeManager_ProcessNewNodeManager
  | ObjectManager_ProcessNewClient

datatype message_handler_t =
    NodeManager_ProcessClientMessage
  | NodeManager_ProcessNodeManagerMessage
  | ObjectManager_ProcessClientMessage

text \<open>The member socket that a handler moves into the connection.\<close>

datatype socket_member = socket_member | object_manager_socket_member | node_manager_socket_member

text \<open>The arguments of \<^verbatim>\<open>ClientConnection::Create\<close>, in the order of the call.\<close>

record Connection =
  client_handler :: client_handler_t
  message_handler :: message_handler_t
  socket :: socket_member
  debug_label :: string
  message_type_enum_names :: "string list"
  error_message_type :: int64_t

text \<open>
  The calls that leave the file, in the order in which they are made: the history of a
  run.
\<close>

datatype 'c event =
    TableBuilt "string list"
  | AsyncAccept acceptor_id
  | GcsAttach
  | ClientTableGetLocalClient
  | ClientTableConnect "'c ClientTableDataT"
  | NodeManagerRegisterGcs
  | ConnectionCreate Connection

subsection \<open>The static tables (lines 32 to 39)\<close>

record statics =
  node_manager_message_enum :: "string list"
  object_manager_message_enum :: "string list"

text \<open>
  \<^verbatim>\<open>static_cast<int>\<close> of an enumerator is its value as an \<^verbatim>\<open>int\<close>. The two tables
  are initialised in the order of their definitions; a failed check ends the process
  before the second table is built.
\<close>

definition build_table :: "protocol_family \<Rightarrow> (fatal + string list) option" where
  "build_table family =
     GenerateEnumNames (EnumNamesMessageType family)
       (word_of_int (MessageType_MIN family)) (word_of_int (MessageType_MAX family))"

definition static_init :: "generated \<Rightarrow> (fatal \<times> 'c event list + statics \<times> 'c event list) option" where
  "static_init gen =
     (case build_table (protocol gen) of
        None \<Rightarrow> None
      | Some (Inl f) \<Rightarrow> Some (Inl (f, []))
      | Some (Inr nm) \<Rightarrow>
          (case build_table (object_manager_protocol gen) of
             None \<Rightarrow> None
           | Some (Inl f) \<Rightarrow> Some (Inl (f, [TableBuilt nm]))
           | Some (Inr om) \<Rightarrow>
               Some (Inr (\<lparr>node_manager_message_enum = nm, object_manager_message_enum = om\<rparr>,
                          [TableBuilt nm, TableBuilt om]))))"

subsection \<open>The raylet\<close>

text \<open>
  The members that the file reads after construction (an acceptor is represented by the
  port of its \<^verbatim>\<open>local_endpoint()\<close>), the number of accepts that each acceptor has
  outstanding on the event loop, and the history. Member names lose their trailing
  underscore.
\<close>

record 'c Raylet =
  socket_name :: string
  object_manager_acceptor :: port_t
  node_manager_acceptor :: port_t
  pending :: "acceptor_id \<Rightarrow> nat"
  trace :: "'c event list"

definition emit :: "'c event \<Rightarrow> 'c Raylet \<Rightarrow> 'c Raylet" where
  "emit e r = r\<lparr>trace := trace r @ [e]\<rparr>"

text \<open>
  \<^verbatim>\<open>acceptor.async_accept(socket, handler)\<close> returns at once and leaves one more
  accept outstanding on the acceptor.
\<close>

definition async_accept :: "acceptor_id \<Rightarrow> 'c Raylet \<Rightarrow> 'c Raylet" where
  "async_accept a r = emit (AsyncAccept a) (r\<lparr>pending := (pending r)(a := Suc (pending r a))\<rparr>)"

subsection \<open>The accept handlers (lines 123 to 195)\<close>

text \<open>
  A \<^verbatim>\<open>boost::system::error_code\<close> is its value; \<^verbatim>\<open>!error\<close> holds when the value is
  zero.
\<close>

type_synonym error_code = int

definition DoAcceptNodeManager :: "'c Raylet \<Rightarrow> 'c Raylet" where
  "DoAcceptNodeManager r = async_accept NodeManagerAcceptor r"

definition HandleAcceptNodeManager :: "generated \<Rightarrow> statics \<Rightarrow> error_code \<Rightarrow> 'c Raylet \<Rightarrow> 'c Raylet" where
  "HandleAcceptNodeManager gen st error r =
     DoAcceptNodeManager
       (if error = 0
        then emit (ConnectionCreate
               \<lparr>client_handler = NodeManager_ProcessNewNodeManager,
                message_handler = NodeManager_ProcessNodeManagerMessage,
                socket = node_manager_socket_member,
                debug_label = ''node manager'',
                message_type_enum_names = node_manager_message_enum st,
                error_message_type = word_of_int (MessageType_DisconnectClient (protocol gen))\<rparr>) r
        else r)"

definition DoAcceptObjectManager :: "'c Raylet \<Rightarrow> 'c Raylet" where
  "DoAcceptObjectManager r = async_accept ObjectManagerAcceptor r"

definition HandleAcceptObjectManager :: "generated \<Rightarrow> statics \<Rightarrow> error_code \<Rightarrow> 'c Raylet \<Rightarrow> 'c Raylet" where
  "HandleAcceptObjectManager gen st error r =
     DoAcceptObjectManager
       (emit (ConnectionCreate
          \<lparr>client_handler = ObjectManager_ProcessNewClient,
           message_handler = ObjectManager_ProcessClientMessage,
           socket = object_manager_socket_member,
           debug_label = ''object manager'',
           message_type_enum_names = object_manager_message_enum st,
           error_message_type =
             word_of_int (MessageType_DisconnectClient (object_manager_protocol gen))\<rparr>) r)"

definition DoAccept :: "'c Raylet \<Rightarrow> 'c Raylet" where
  "DoAccept r = async_accept LocalAcceptor r"

definition HandleAccept :: "generated \<Rightarrow> statics \<Rightarrow> error_code \<Rightarrow> 'c Raylet \<Rightarrow> 'c Raylet" where
  "HandleAccept gen st error r =
     DoAccept
       (if error = 0
        then emit (ConnectionCreate
               \<lparr>client_handler = NodeManager_ProcessNewClient,
                message_handler = NodeManager_ProcessClientMessage,
                socket = socket_member,
                debug_label = ''worker'',
                message_type_enum_names = node_manager_message_enum st,
                error_message_type = word_of_int (MessageType_DisconnectClient (protocol gen))\<rparr>) r
        else r)"

text \<open>
  The handler that each \<^verbatim>\<open>async_accept\<close> call binds (lines 125, 152 and 173).
\<close>

fun bound_handler :: "generated \<Rightarrow> statics \<Rightarrow> acceptor_id \<Rightarrow> error_code \<Rightarrow> 'c Raylet \<Rightarrow> 'c Raylet" where
  "bound_handler gen st LocalAcceptor = HandleAccept gen st"
| "bound_handler gen st ObjectManagerAcceptor = HandleAcceptObjectManager gen st"
| "bound_handler gen st NodeManagerAcceptor = HandleAcceptNodeManager gen st"

text \<open>
  The event loop completes an outstanding accept once, by calling the handler bound to
  it with the outcome. An acceptor with no accept outstanding completes nothing
  (\<open>None\<close>): it no longer serves connections.
\<close>

definition accept_completion :: "generated \<Rightarrow> statics \<Rightarrow> acceptor_id \<Rightarrow> error_code \<Rightarrow> 'c Raylet \<Rightarrow> 'c Raylet option" where
  "accept_completion gen st a error r =
     (if pending r a = 0 then None
      else Some (bound_handler gen st a error (r\<lparr>pending := (pending r)(a := pending r a - 1)\<rparr>)))"

fun event_loop :: "generated \<Rightarrow> statics \<Rightarrow> (acceptor_id \<times> error_code) list \<Rightarrow> 'c Raylet \<Rightarrow> 'c Raylet option" where
  "event_loop gen st [] r = Some r"
| "event_loop gen st ((a, error) # completions) r =
     (case accept_completion gen st a error r of
        None \<Rightarrow> None
      | Some r' \<Rightarrow> event_loop gen st completions r')"

subsection \<open>\<^verbatim>\<open>Raylet::RegisterGcs\<close> (lines 89 to 121)\<close>

text \<open>Lines 105 to 108: one pass over the resource map, two \<^verbatim>\<open>push_back\<close> per pair.\<close>

fun add_resources :: "(string \<times> 'c) list \<Rightarrow> 'c ClientTableDataT \<Rightarrow> 'c ClientTableDataT" where
  "add_resources [] client_info = client_info"
| "add_resources (resource_pair # rest) client_info =
     add_resources rest
       (client_info
          \<lparr>resources_total_label := resources_total_label client_info @ [fst resource_pair],
           resources_total_capacity := resources_total_capacity client_info @ [snd resource_pair]\<rparr>)"

text \<open>
  Lines 98 to 108: the descriptor is the template of the client table with five fields
  assigned and the resources appended. A port is an \<^verbatim>\<open>unsigned short\<close>; the descriptor
  stores its value.
\<close>

definition fill_client_info :: "'c collaborators \<Rightarrow> string \<Rightarrow> string \<Rightarrow> string \<Rightarrow> 'c NodeManagerConfig \<Rightarrow> 'c Raylet \<Rightarrow> 'c ClientTableDataT" where
  "fill_client_info env node_ip_address raylet_socket_name_arg object_store_socket_name_arg
       node_manager_config r =
     (let client_info = GetLocalClient env;
          client_info = client_info\<lparr>node_manager_address := node_ip_address\<rparr>;
          client_info = client_info\<lparr>raylet_socket_name := raylet_socket_name_arg\<rparr>;
          client_info = client_info\<lparr>object_store_socket_name := object_store_socket_name_arg\<rparr>;
          client_info = client_info\<lparr>object_manager_port := uint (object_manager_acceptor r)\<rparr>;
          client_info = client_info\<lparr>node_manager_port := uint (node_manager_acceptor r)\<rparr>
      in add_resources (resource_config node_manager_config) client_info)"

text \<open>
  \<^verbatim>\<open>RAY_RETURN_NOT_OK(e)\<close> returns the status of \<open>e\<close> when it is not ok. The
  \<^verbatim>\<open>redis\<close> arguments and the \<^verbatim>\<open>io_service\<close> are not inspected by the body; the
  \<^verbatim>\<open>RAY_LOG(DEBUG)\<close> of lines 110 to 114 only formats a line.
\<close>

definition RegisterGcs :: "'c collaborators \<Rightarrow> string \<Rightarrow> string \<Rightarrow> string \<Rightarrow> 'c NodeManagerConfig \<Rightarrow> 'c Raylet \<Rightarrow> Status \<times> 'c Raylet" where
  "RegisterGcs env node_ip_address raylet_socket_name_arg object_store_socket_name_arg
       node_manager_config r =
     (let r = emit GcsAttach r in
      if \<not> ok (Attach env) then (Attach env, r)
      else
        let r = emit ClientTableGetLocalClient r;
            client_info = fill_client_info env node_ip_address raylet_socket_name_arg
                            object_store_socket_name_arg node_manager_config r;
            r = emit (ClientTableConnect client_info) r
        in
          if \<not> ok (Connect env client_info) then (Connect env client_info, r)
          else
            let r = emit NodeManagerRegisterGcs r in
            if \<not> ok (NodeManager_RegisterGcs env) then (NodeManager_RegisterGcs env, r)
            else (OK, r))"

text \<open>Lines 83 to 87: a timer is built and dropped; the status is always ok.\<close>

definition RegisterPeriodicTimer :: "'c Raylet \<Rightarrow> Status \<times> 'c Raylet" where
  "RegisterPeriodicTimer r = (OK, r)"

subsection \<open>\<^verbatim>\<open>Raylet::Raylet\<close> (lines 46 to 79) and the start of the process\<close>

text \<open>
  The initialiser list builds the subsystems and then the three acceptors, the two
  network acceptors on the configured ports (an \<^verbatim>\<open>int\<close> narrowed to the
  \<^verbatim>\<open>unsigned short\<close> of the endpoint); members are taken to be initialised in the order
  of the list. When one of these constructors throws, the body does not run. Otherwise
  the body starts the three accept loops and registers. \<open>Inl\<close> is a start that was
  stopped, with the history up to then.
\<close>

definition Raylet_ctor :: "'c collaborators \<Rightarrow> string \<Rightarrow> string \<Rightarrow> 'c NodeManagerConfig \<Rightarrow> ObjectManagerConfig \<Rightarrow> 'c event list \<Rightarrow> fatal \<times> 'c event list + 'c Raylet" where
  "Raylet_ctor env socket_name_arg node_ip_address node_manager_config object_manager_config
       history =
     (if \<not> subsystems_built env then Inl (SubsystemThrew, history)
      else if \<not> local_bound env socket_name_arg then Inl (AcceptorThrew LocalAcceptor, history)
      else
        case bound_port env ObjectManagerAcceptor
               (ucast (ObjectManagerConfig.object_manager_port object_manager_config)) of
          None \<Rightarrow> Inl (AcceptorThrew ObjectManagerAcceptor, history)
        | Some om_port \<Rightarrow>
            (case bound_port env NodeManagerAcceptor
                    (ucast (NodeManagerConfig.node_manager_port node_manager_config)) of
               None \<Rightarrow> Inl (AcceptorThrew NodeManagerAcceptor, history)
             | Some nm_port \<Rightarrow>
                 let r = \<lparr>socket_name = socket_name_arg,
                          object_manager_acceptor = om_port,
                          node_manager_acceptor = nm_port,
                          pending = (\<lambda>a. 0),
                          trace = history\<rparr>;
                     r = DoAccept r;
                     r = DoAcceptObjectManager r;
                     r = DoAcceptNodeManager r;
                     (status, r) = RegisterGcs env node_ip_address (socket_name r)
                                     (store_socket_name object_manager_config)
                                     node_manager_config r
                 in
                   if \<not> ok status then Inl (BadStatus status, trace r)
                   else
                     let (status, r) = RegisterPeriodicTimer r in
                     if \<not> ok status then Inl (BadStatus status, trace r) else Inr r))"

text \<open>
  The process: the static tables of this translation unit are initialised before any of
  its functions is used, then the constructor runs. \<open>None\<close>: a name loop never
  returned. \<open>Inl\<close>: the start was stopped, with the history up to then.
\<close>

definition bootstrap :: "generated \<Rightarrow> 'c collaborators \<Rightarrow> string \<Rightarrow> string \<Rightarrow> 'c NodeManagerConfig \<Rightarrow> ObjectManagerConfig \<Rightarrow> (fatal \<times> 'c event list + statics \<times> 'c Raylet) option" where
  "bootstrap gen env socket_name_arg node_ip_address node_manager_config object_manager_config =
     (case static_init gen of
        None \<Rightarrow> None
      | Some (Inl (f, history)) \<Rightarrow> Some (Inl (f, history))
      | Some (Inr (st, history)) \<Rightarrow>
          (case Raylet_ctor env socket_name_arg node_ip_address node_manager_config
                  object_manager_config history of
             Inl (f, stopped) \<Rightarrow> Some (Inl (f, stopped))
           | Inr r \<Rightarrow> Some (Inr (st, r))))"

text \<open>What a history shows: the descriptors published and the connections created.\<close>

fun published :: "'c event list \<Rightarrow> 'c ClientTableDataT list" where
  "published [] = []"
| "published (ClientTableConnect client_info # es) = client_info # published es"
| "published (e # es) = published es"

fun created :: "'c event list \<Rightarrow> Connection list" where
  "created [] = []"
| "created (ConnectionCreate c # es) = c # created es"
| "created (e # es) = created es"

text \<open>The history of a construction, whether it returned or was stopped.\<close>

fun ctor_history :: "fatal \<times> 'c event list + 'c Raylet \<Rightarrow> 'c event list" where
  "ctor_history (Inl (f, history)) = history"
| "ctor_history (Inr r) = trace r"

text \<open>
  The state in which line 74 calls \<^verbatim>\<open>RegisterGcs\<close>: the acceptors bound, one accept
  outstanding on each, the three \<^verbatim>\<open>async_accept\<close> calls in the history.
\<close>

definition after_accepts :: "string \<Rightarrow> port_t \<Rightarrow> port_t \<Rightarrow> 'c event list \<Rightarrow> 'c Raylet" where
  "after_accepts sock om_port nm_port history =
     \<lparr>socket_name = sock,
      object_manager_acceptor = om_port,
      node_manager_acceptor = nm_port,
      pending = (\<lambda>a. Suc 0),
      trace = history @ [AsyncAccept LocalAcceptor, AsyncAccept ObjectManagerAcceptor,
                         AsyncAccept NodeManagerAcceptor]\<rparr>"

subsection \<open>A sample node\<close>

text \<open>
  A node on channel \<^verbatim>\<open>/tmp/x.sock\<close> with both ports requested as 0, one resource
  \<^verbatim>\<open>CPU\<close> of capacity 4, an empty descriptor template, and two small protocol families.
  The statuses of the three collaborators are arguments. The operating system assigns
  ports 40001 and 40002 when port 0 is requested; port 80 is in use.
\<close>

definition sample_template :: "nat ClientTableDataT" where
  "sample_template =
     \<lparr>node_manager_address = [], raylet_socket_name = [], object_store_socket_name = [],
      object_manager_port = 0, node_manager_port = 0,
      resources_total_label = [], resources_total_capacity = []\<rparr>"

definition sample_env :: "Status \<Rightarrow> Status \<Rightarrow> Status \<Rightarrow> nat collaborators" where
  "sample_env attach connect hook =
     \<lparr>Attach = attach, GetLocalClient = sample_template, Connect = (\<lambda>client_info. connect),
      NodeManager_RegisterGcs = hook,
      subsystems_built = True,
      local_bound = (\<lambda>path. True),
      bound_port = (\<lambda>a requested.
        if requested = 80 then None
        else if requested \<noteq> 0 then Some requested
        else if a = ObjectManagerAcceptor then Some 40001 else Some 40002)\<rparr>"

definition sample_config :: "nat NodeManagerConfig" where
  "sample_config =
     \<lparr>resource_config = [(''CPU'', 4)], NodeManagerConfig.node_manager_port = 0\<rparr>"

definition sample_om_config :: ObjectManagerConfig where
  "sample_om_config =
     \<lparr>ObjectManagerConfig.object_manager_port = 0, store_socket_name = ''/tmp/store''\<rparr>"

definition sample_raylet :: "nat Raylet" where
  "sample_raylet =
     \<lparr>socket_name = ''/tmp/x.sock'', object_manager_acceptor = 40001,
      node_manager_acceptor = 40002, pending = (\<lambda>a. 1), trace = []\<rparr>"

definition sample_generated :: generated where
  "sample_generated =
     \<lparr>protocol =
        \<lparr>EnumNamesMessageType = raw_array [''A'', ''B''], MessageType_MIN = 1,
         MessageType_MAX = 2, MessageType_DisconnectClient = 2\<rparr>,
      object_manager_protocol =
        \<lparr>EnumNamesMessageType = raw_array [''X''], MessageType_MIN = 1,
         MessageType_MAX = 1, MessageType_DisconnectClient = 1\<rparr>\<rparr>"

definition sample_statics :: statics where
  "sample_statics =
     \<lparr>node_manager_message_enum = [''EmptyMessageType'', ''A'', ''B''],
      object_manager_message_enum = [''EmptyMessageType'', ''X'']\<rparr>"

section \<open>Properties\<close>

subsection \<open>Facts about the two loops and the size check\<close>

lemma sint_succ_below:
  fixes i b :: c_int
  assumes "i <s b"
  shows "sint (i + 1) = sint i + 1"
proof -
  have lt: "sint i < sint b"
    using assms by (simp add: word_sless_alt)
  have hi: "sint b < 2 ^ 31"
    using sint_lt [of b] by simp
  have lo: "- (2 ^ 31) \<le> sint i"
    using sint_ge [of i] by simp
  have "sint (i + 1) = signed_take_bit 31 (sint i + 1)"
    by (simp add: sint_word_ariths)
  also have "\<dots> = sint i + 1"
    using lt hi lo by (intro signed_take_bit_int_eq_self) auto
  finally show ?thesis .
qed

lemma placeholder_loop_from:
  "sint i \<le> sint start_index \<Longrightarrow>
   placeholder_loop i start_index acc =
     acc @ replicate (nat (sint start_index - sint i)) ''EmptyMessageType''"
proof (induction i start_index acc rule: placeholder_loop.induct)
  case (1 i start_index enum_names)
  show ?case
  proof (cases "i <s start_index")
    case True
    have s: "sint (i + 1) = sint i + 1"
      using True by (rule sint_succ_below)
    have lt: "sint i < sint start_index"
      using True by (simp add: word_sless_alt)
    have "placeholder_loop i start_index enum_names =
          placeholder_loop (i + 1) start_index (enum_names @ [''EmptyMessageType''])"
      using True by (subst placeholder_loop.simps) simp
    also have "\<dots> = (enum_names @ [''EmptyMessageType'']) @
        replicate (nat (sint start_index - sint (i + 1))) ''EmptyMessageType''"
      using "1.IH" [OF True] lt s by simp
    also have "\<dots> = enum_names @
        replicate (Suc (nat (sint start_index - sint (i + 1)))) ''EmptyMessageType''"
      by simp
    also have "Suc (nat (sint start_index - sint (i + 1))) = nat (sint start_index - sint i)"
      using lt s by simp
    finally show ?thesis .
  next
    case False
    then have "sint start_index = sint i"
      using "1.prems" by (simp add: word_sless_alt)
    then show ?thesis
      using False by (subst placeholder_loop.simps) simp
  qed
qed

lemma placeholder_loop_0:
  "placeholder_loop 0 start_index [] = replicate (nat (sint start_index)) ''EmptyMessageType''"
proof (cases "0 <s start_index")
  case True
  then have "sint (0 :: c_int) \<le> sint start_index"
    by (simp add: word_sless_alt)
  from placeholder_loop_from [OF this] show ?thesis
    by simp
next
  case False
  then have "sint start_index \<le> 0"
    by (simp add: word_sless_alt)
  then show ?thesis
    using False by (subst placeholder_loop.simps) simp
qed

lemma names_loop_upto:
  assumes "enum_names_ptr k = None" and "\<forall>j<k. enum_names_ptr j \<noteq> None"
  shows "i \<le> k \<Longrightarrow>
    names_loop enum_names_ptr i acc = Some (acc @ map (\<lambda>j. the (enum_names_ptr j)) [i..<k])"
proof (induction "k - i" arbitrary: i acc)
  case 0
  then have "i = k"
    by simp
  then show ?case
    using assms(1) by (simp add: names_loop.simps)
next
  case (Suc d)
  then have lt: "i < k"
    by simp
  then obtain name where nm: "enum_names_ptr i = Some name"
    using assms(2) by auto
  have "names_loop enum_names_ptr i acc = names_loop enum_names_ptr (i + 1) (acc @ [name])"
    by (subst names_loop.simps) (simp add: nm)
  also have "\<dots> = Some ((acc @ [name]) @ map (\<lambda>j. the (enum_names_ptr j)) [i + 1..<k])"
    using Suc lt by (intro Suc.hyps(1)) auto
  also have "(acc @ [name]) @ map (\<lambda>j. the (enum_names_ptr j)) [i + 1..<k] =
     acc @ map (\<lambda>j. the (enum_names_ptr j)) [i..<k]"
    using lt nm by (simp add: upt_conv_Cons)
  finally show ?case .
qed

lemma names_loop_names:
  assumes "\<forall>j<length names. enum_names_ptr j = Some (names ! j)"
    and "enum_names_ptr (length names) = None"
  shows "names_loop enum_names_ptr 0 acc = Some (acc @ names)"
proof -
  have "\<forall>j<length names. enum_names_ptr j \<noteq> None"
    using assms(1) by simp
  from names_loop_upto [OF assms(2) this, of 0 acc]
  have "names_loop enum_names_ptr 0 acc =
      Some (acc @ map (\<lambda>j. the (enum_names_ptr j)) [0..<length names])"
    by simp
  moreover have "map (\<lambda>j. the (enum_names_ptr j)) [0..<length names] = names"
    using assms(1) by (intro nth_equalityI) simp_all
  ultimately show ?thesis
    by simp
qed

lemma names_loop_extends:
  fixes enum_names_ptr :: name_array
  shows "names_loop enum_names_ptr i acc = Some r \<Longrightarrow> \<exists>names. r = acc @ names"
proof (rule names_loop.raw_induct [where P = "\<lambda>p i acc r. \<exists>names. r = acc @ names"])
  fix f :: "name_array \<Rightarrow> nat \<Rightarrow> string list \<Rightarrow> string list option"
    and p :: name_array and i :: nat and acc r :: "string list"
  assume "\<And>p i acc r. f p i acc = Some r \<Longrightarrow> \<exists>names. r = acc @ names"
    and "(case p i of None \<Rightarrow> Some acc | Some name \<Rightarrow> f p (i + 1) (acc @ [name])) = Some r"
  then show "\<exists>names. r = acc @ names"
    by (cases "p i") fastforce+
qed

lemma names_loop_needs_null:
  fixes enum_names_ptr :: name_array
  shows "names_loop enum_names_ptr i acc = Some r \<Longrightarrow> \<exists>k. enum_names_ptr k = None"
proof (rule names_loop.raw_induct [where P = "\<lambda>p i acc r. \<exists>k. p k = None"])
  fix f :: "name_array \<Rightarrow> nat \<Rightarrow> string list \<Rightarrow> string list option"
    and p :: name_array and i :: nat and acc r :: "string list"
  assume "\<And>p i acc r. f p i acc = Some r \<Longrightarrow> \<exists>k. p k = None"
    and "(case p i of None \<Rightarrow> Some acc | Some name \<Rightarrow> f p (i + 1) (acc @ [name])) = Some r"
  then show "\<exists>k. p k = None"
    by (cases "p i") auto
qed

lemma size_check_mod:
  "size_check end_index enum_names \<longleftrightarrow>
     sint end_index mod 2 ^ 64 = (int (length enum_names) - 1) mod 2 ^ 64"
proof -
  have a: "(scast end_index :: size_t) = word_of_int (sint end_index)"
    by (rule scast_eq)
  have b: "(word_of_nat (length enum_names) :: size_t) - 1 =
      word_of_int (int (length enum_names) - 1)"
    by simp
  have "size_check end_index enum_names \<longleftrightarrow>
      (word_of_int (sint end_index) :: size_t) = word_of_int (int (length enum_names) - 1)"
    unfolding size_check_def by (simp only: a b)
  also have "\<dots> \<longleftrightarrow>
      take_bit LENGTH(64) (sint end_index) = take_bit LENGTH(64) (int (length enum_names) - 1)"
    by (rule word_of_int_eq_iff)
  also have "\<dots> \<longleftrightarrow> sint end_index mod 2 ^ 64 = (int (length enum_names) - 1) mod 2 ^ 64"
    by (simp add: take_bit_eq_mod)
  finally show ?thesis .
qed

lemma size_check_lower:
  assumes "size_check end_index enum_names"
  shows "sint end_index \<le> int (length enum_names) - 1"
proof -
  let ?n = "int (length enum_names)"
  have "sint end_index mod 2 ^ 64 = (?n - 1) mod 2 ^ 64"
    using assms by (simp only: size_check_mod)
  then have d: "(2 ^ 64 :: int) dvd (?n - 1 - sint end_index)"
    by (metis mod_eq_dvd_iff)
  have "sint end_index < 2 ^ 31"
    using sint_lt [of end_index] by simp
  then have gt: "- (2 ^ 64) < ?n - 1 - sint end_index"
    by simp
  have "0 \<le> ?n - 1 - sint end_index"
  proof (rule ccontr)
    assume "\<not> 0 \<le> ?n - 1 - sint end_index"
    then have pos: "0 < - (?n - 1 - sint end_index)"
      by simp
    from d have "(2 ^ 64 :: int) dvd - (?n - 1 - sint end_index)"
      by (simp only: dvd_minus_iff)
    from zdvd_imp_le [OF this pos] gt show False
      by simp
  qed
  then show ?thesis
    by simp
qed

lemma size_check_exact:
  assumes "length enum_names < 2 ^ 63"
  shows "size_check end_index enum_names \<longleftrightarrow> sint end_index = int (length enum_names) - 1"
proof -
  let ?n = "int (length enum_names)"
  have n: "?n < 2 ^ 63"
    using assms by (metis of_nat_less_numeral_power_cancel_iff)
  have "size_check end_index enum_names \<longleftrightarrow>
      sint end_index mod 2 ^ 64 = (?n - 1) mod 2 ^ 64"
    by (rule size_check_mod)
  also have "\<dots> \<longleftrightarrow> (2 ^ 64 :: int) dvd (?n - 1 - sint end_index)"
    by (metis mod_eq_dvd_iff)
  also have "\<dots> \<longleftrightarrow> sint end_index = ?n - 1"
  proof
    assume d: "(2 ^ 64 :: int) dvd (?n - 1 - sint end_index)"
    have "sint end_index < 2 ^ 31" "- (2 ^ 31) \<le> sint end_index"
      using sint_lt [of end_index] sint_ge [of end_index] by simp_all
    then have "\<bar>?n - 1 - sint end_index\<bar> < 2 ^ 64"
      using n by simp
    with d have "?n - 1 - sint end_index = 0"
      using zdvd_not_zless [of "\<bar>?n - 1 - sint end_index\<bar>" "2 ^ 64"] by fastforce
    then show "sint end_index = ?n - 1"
      by simp
  qed simp
  finally show ?thesis .
qed

text \<open>Without a null entry the function never returns.\<close>

lemma GenerateEnumNames_diverges:
  fixes enum_names_ptr :: name_array
  assumes "\<forall>k. enum_names_ptr k \<noteq> None"
  shows "GenerateEnumNames enum_names_ptr start_index end_index = None"
proof (cases "names_loop enum_names_ptr 0 (placeholder_loop 0 start_index [])")
  case None
  then show ?thesis
    by (simp add: GenerateEnumNames_def)
next
  case (Some r)
  from names_loop_needs_null [OF this] assms show ?thesis
    by blast
qed

subsection \<open>The protocol name table\<close>

text \<open>
  Claim C1. Let the raw array hold the names \<open>names\<close> followed by a null entry, and let
  the table fit into memory (fewer than \<open>2 ^ 63\<close> entries). Then \<^verbatim>\<open>GenerateEnumNames\<close>
  builds \<open>start_index\<close> placeholders (none when \<open>start_index\<close> is negative) followed by
  all of \<open>names\<close> in order, and returns exactly this table when its size minus one is
  \<open>end_index\<close>; otherwise the process ends with the "Message Type mismatch!" check. In
  particular, for a range that starts at \<open>start_index \<ge> 0\<close>, a name array whose length is
  not \<open>end_index - start_index + 1\<close> never yields a table.
\<close>

theorem GenerateEnumNames_table_or_fatal:
  assumes names: "\<forall>j<length names. enum_names_ptr j = Some (names ! j)"
    and null: "enum_names_ptr (length names) = None"
    and fits: "nat (sint start_index) + length names < 2 ^ 63"
  shows "GenerateEnumNames enum_names_ptr start_index end_index =
      (let table = replicate (nat (sint start_index)) ''EmptyMessageType'' @ names in
       if int (length table) - 1 = sint end_index then Some (Inr table)
       else Some (Inl (CheckFailed ''Message Type mismatch!'')))
    \<and> (0 \<le> sint start_index \<and> int (length names) \<noteq> sint end_index - sint start_index + 1 \<longrightarrow>
       GenerateEnumNames enum_names_ptr start_index end_index =
         Some (Inl (CheckFailed ''Message Type mismatch!'')))"
proof -
  let ?table = "replicate (nat (sint start_index)) ''EmptyMessageType'' @ names"
  have loop: "names_loop enum_names_ptr 0 (placeholder_loop 0 start_index []) = Some ?table"
    using names_loop_names [OF names null] by (simp add: placeholder_loop_0)
  have "length ?table < 2 ^ 63"
    using fits by simp
  then have check: "size_check end_index ?table \<longleftrightarrow> sint end_index = int (length ?table) - 1"
    by (rule size_check_exact)
  have eq: "GenerateEnumNames enum_names_ptr start_index end_index =
      (if int (length ?table) - 1 = sint end_index then Some (Inr ?table)
       else Some (Inl (CheckFailed ''Message Type mismatch!'')))"
    unfolding GenerateEnumNames_def loop using check by auto
  have "0 \<le> sint start_index \<Longrightarrow> int (length names) \<noteq> sint end_index - sint start_index + 1 \<Longrightarrow>
      int (length ?table) - 1 \<noteq> sint end_index"
    by simp
  with eq show ?thesis
    by (simp add: Let_def)
qed

theorem GenerateEnumNames_table_or_fatal_witness:
  "GenerateEnumNames (raw_array [''A'', ''B'']) 1 2 = Some (Inr [''EmptyMessageType'', ''A'', ''B''])
   \<and> GenerateEnumNames (raw_array [''A'', ''B'']) 1 3 =
       Some (Inl (CheckFailed ''Message Type mismatch!''))"
  using GenerateEnumNames_table_or_fatal [of "[''A'', ''B'']" "raw_array [''A'', ''B'']" 1 2]
    GenerateEnumNames_table_or_fatal [of "[''A'', ''B'']" "raw_array [''A'', ''B'']" 1 3]
  by (simp add: raw_array_def)

text \<open>
  Claim C2. In a table that \<^verbatim>\<open>GenerateEnumNames\<close> returns, every index in
  \<open>[0, start_index)\<close> is in bounds and holds \<^verbatim>\<open>"EmptyMessageType"\<close>, and every index in
  \<open>[0, end_index]\<close> is in bounds.
\<close>

theorem GenerateEnumNames_indexable:
  assumes "GenerateEnumNames enum_names_ptr start_index end_index = Some (Inr table)"
  shows "(\<forall>i. 0 \<le> i \<and> i < sint start_index \<longrightarrow>
            nat i < length table \<and> table ! nat i = ''EmptyMessageType'')
    \<and> (\<forall>i. 0 \<le> i \<and> i \<le> sint end_index \<longrightarrow> nat i < length table)"
proof -
  from assms have loop: "names_loop enum_names_ptr 0 (placeholder_loop 0 start_index []) = Some table"
    and check: "size_check end_index table"
    by (auto simp: GenerateEnumNames_def split: option.splits if_splits)
  from names_loop_extends [OF loop] obtain names where
    table: "table = replicate (nat (sint start_index)) ''EmptyMessageType'' @ names"
    by (auto simp: placeholder_loop_0)
  have "\<forall>i. 0 \<le> i \<and> i < sint start_index \<longrightarrow>
      nat i < length table \<and> table ! nat i = ''EmptyMessageType''"
    by (auto simp: table nth_append)
  moreover have "\<forall>i. 0 \<le> i \<and> i \<le> sint end_index \<longrightarrow> nat i < length table"
    using size_check_lower [OF check] by auto
  ultimately show ?thesis
    by blast
qed

theorem GenerateEnumNames_indexable_witness:
  "GenerateEnumNames (raw_array [''A'', ''B'']) 1 2 = Some (Inr [''EmptyMessageType'', ''A'', ''B''])
   \<and> nat 0 < length [''EmptyMessageType'', ''A'', ''B'']
   \<and> [''EmptyMessageType'', ''A'', ''B''] ! nat 0 = ''EmptyMessageType''
   \<and> nat 2 < length [''EmptyMessageType'', ''A'', ''B'']"
proof -
  have run: "GenerateEnumNames (raw_array [''A'', ''B'']) 1 2 =
      Some (Inr [''EmptyMessageType'', ''A'', ''B''])"
    by code_simp
  have "(0 :: int) \<le> 0 \<and> 0 < sint (1 :: c_int)" and "(0 :: int) \<le> 2 \<and> 2 \<le> sint (2 :: c_int)"
    by simp_all
  with GenerateEnumNames_indexable [OF run] run show ?thesis
    by blast
qed

text \<open>
  Claim C10. If the raw array has a null entry at some offset \<open>n\<close>, then
  \<^verbatim>\<open>GenerateEnumNames\<close> does not run forever: with \<open>k\<close> the offset of the first null entry
  and \<open>names\<close> the \<open>k\<close> entries before it, the function has appended exactly these
  \<open>k\<close> names after the placeholders when it reaches the check, where it returns that
  table or ends the process. Every table it returns has \<open>k\<close> entries after the
  placeholders.
\<close>

theorem GenerateEnumNames_terminates:
  assumes "enum_names_ptr n = None"
  shows "\<exists>k names. k \<le> n \<and> enum_names_ptr k = None \<and> (\<forall>j<k. enum_names_ptr j \<noteq> None)
      \<and> length names = k \<and> (\<forall>j<k. enum_names_ptr j = Some (names ! j))
      \<and> GenerateEnumNames enum_names_ptr start_index end_index =
          Some (if size_check end_index
                     (replicate (nat (sint start_index)) ''EmptyMessageType'' @ names)
                then Inr (replicate (nat (sint start_index)) ''EmptyMessageType'' @ names)
                else Inl (CheckFailed ''Message Type mismatch!''))
      \<and> (\<forall>table. GenerateEnumNames enum_names_ptr start_index end_index = Some (Inr table) \<longrightarrow>
            length table = nat (sint start_index) + k
            \<and> drop (nat (sint start_index)) table = names)"
proof -
  define k where "k = (LEAST j. enum_names_ptr j = None)"
  have k_null: "enum_names_ptr k = None"
    unfolding k_def using assms by (rule LeastI)
  have k_le: "k \<le> n"
    unfolding k_def using assms by (rule Least_le)
  have k_first: "\<forall>j<k. enum_names_ptr j \<noteq> None"
    unfolding k_def using not_less_Least by blast
  define names where "names = map (\<lambda>j. the (enum_names_ptr j)) [0..<k]"
  let ?table = "replicate (nat (sint start_index)) ''EmptyMessageType'' @ names"
  have len: "length names = k"
    by (simp add: names_def)
  have content: "\<forall>j<k. enum_names_ptr j = Some (names ! j)"
    using k_first by (auto simp: names_def)
  have loop: "names_loop enum_names_ptr 0 (placeholder_loop 0 start_index []) = Some ?table"
    using names_loop_upto [OF k_null k_first, of 0] by (simp add: names_def placeholder_loop_0)
  have result: "GenerateEnumNames enum_names_ptr start_index end_index =
      Some (if size_check end_index ?table then Inr ?table
            else Inl (CheckFailed ''Message Type mismatch!''))"
    by (simp add: GenerateEnumNames_def loop)
  have returned: "\<forall>table. GenerateEnumNames enum_names_ptr start_index end_index = Some (Inr table) \<longrightarrow>
      length table = nat (sint start_index) + k \<and> drop (nat (sint start_index)) table = names"
    by (auto simp: result len split: if_splits)
  from k_le k_null k_first len content result returned show ?thesis
    by blast
qed

theorem GenerateEnumNames_terminates_witness:
  "raw_array [''A'', ''B''] 5 = None
   \<and> (\<exists>k names. k \<le> 5 \<and> raw_array [''A'', ''B''] k = None \<and> length names = k
         \<and> GenerateEnumNames (raw_array [''A'', ''B'']) 1 2 =
             Some (Inr (replicate (nat (sint (1 :: c_int))) ''EmptyMessageType'' @ names)))
   \<and> GenerateEnumNames (raw_array [''A'', ''B'']) 1 2 = Some (Inr [''EmptyMessageType'', ''A'', ''B''])
   \<and> length [''EmptyMessageType'', ''A'', ''B''] = nat (sint (1 :: c_int)) + 2"
proof -
  have null: "raw_array [''A'', ''B''] 5 = None"
    by (simp add: raw_array_def)
  have run: "GenerateEnumNames (raw_array [''A'', ''B'']) 1 2 =
      Some (Inr [''EmptyMessageType'', ''A'', ''B''])"
    by code_simp
  from GenerateEnumNames_terminates [of "raw_array [''A'', ''B'']" 5 1 2, OF null]
  obtain k names where k: "k \<le> 5" "raw_array [''A'', ''B''] k = None" "length names = k"
    and res: "GenerateEnumNames (raw_array [''A'', ''B'']) 1 2 =
          Some (if size_check 2 (replicate (nat (sint (1 :: c_int))) ''EmptyMessageType'' @ names)
                then Inr (replicate (nat (sint (1 :: c_int))) ''EmptyMessageType'' @ names)
                else Inl (CheckFailed ''Message Type mismatch!''))"
    by blast
  from res run
  have "GenerateEnumNames (raw_array [''A'', ''B'']) 1 2 =
      Some (Inr (replicate (nat (sint (1 :: c_int))) ''EmptyMessageType'' @ names))"
    by (simp split: if_splits)
  with k have ex: "\<exists>k names. k \<le> 5 \<and> raw_array [''A'', ''B''] k = None \<and> length names = k
         \<and> GenerateEnumNames (raw_array [''A'', ''B'']) 1 2 =
             Some (Inr (replicate (nat (sint (1 :: c_int))) ''EmptyMessageType'' @ names))"
    by blast
  have "length [''EmptyMessageType'', ''A'', ''B''] = nat (sint (1 :: c_int)) + 2"
    by simp
  with null ex run show ?thesis
    by (intro conjI)
qed

subsection \<open>Registration\<close>

lemma ok_iff: "ok s \<longleftrightarrow> s = OK"
  by (cases s) simp_all

lemma add_resources_label:
  "resources_total_label (add_resources rm ci) = resources_total_label ci @ map fst rm"
  by (induction rm arbitrary: ci) simp_all

lemma add_resources_capacity:
  "resources_total_capacity (add_resources rm ci) = resources_total_capacity ci @ map snd rm"
  by (induction rm arbitrary: ci) simp_all

lemma add_resources_ports:
  "object_manager_port (add_resources rm ci) = object_manager_port ci"
  "node_manager_port (add_resources rm ci) = node_manager_port ci"
  by (induction rm arbitrary: ci) simp_all

lemma add_resources_strings:
  "node_manager_address (add_resources rm ci) = node_manager_address ci"
  "raylet_socket_name (add_resources rm ci) = raylet_socket_name ci"
  "object_store_socket_name (add_resources rm ci) = object_store_socket_name ci"
  by (induction rm arbitrary: ci) simp_all

lemma fill_client_info_trace:
  "fill_client_info env ip sock store cfg (r\<lparr>trace := t\<rparr>) =
   fill_client_info env ip sock store cfg r"
  by (simp add: fill_client_info_def)

lemma fill_client_info_ports:
  "node_manager_port (fill_client_info env ip sock store cfg r) = uint (node_manager_acceptor r)"
  "object_manager_port (fill_client_info env ip sock store cfg r) = uint (object_manager_acceptor r)"
  by (simp_all add: fill_client_info_def add_resources_ports)

lemma fill_client_info_resources:
  "resources_total_label (fill_client_info env ip sock store cfg r) =
     resources_total_label (GetLocalClient env) @ map fst (resource_config cfg)"
  "resources_total_capacity (fill_client_info env ip sock store cfg r) =
     resources_total_capacity (GetLocalClient env) @ map snd (resource_config cfg)"
  by (simp_all add: fill_client_info_def add_resources_label add_resources_capacity)

lemma RegisterGcs_eq:
  "RegisterGcs env ip sock store cfg r =
     (let ci = fill_client_info env ip sock store cfg r in
      if \<not> ok (Attach env) then (Attach env, r\<lparr>trace := trace r @ [GcsAttach]\<rparr>)
      else if \<not> ok (Connect env ci)
      then (Connect env ci,
            r\<lparr>trace := trace r @ [GcsAttach, ClientTableGetLocalClient, ClientTableConnect ci]\<rparr>)
      else (NodeManager_RegisterGcs env,
            r\<lparr>trace := trace r @ [GcsAttach, ClientTableGetLocalClient, ClientTableConnect ci,
                                   NodeManagerRegisterGcs]\<rparr>))"
  by (auto simp: RegisterGcs_def Let_def fill_client_info_trace emit_def ok_iff)

lemma published_append: "published (xs @ ys) = published xs @ published ys"
  by (induction xs rule: published.induct) simp_all

lemma created_append: "created (xs @ ys) = created xs @ created ys"
  by (induction xs rule: created.induct) simp_all

lemma RegisterGcs_attach_fails:
  assumes "\<not> ok (Attach env)"
  shows "RegisterGcs env ip sock store cfg r = (Attach env, r\<lparr>trace := trace r @ [GcsAttach]\<rparr>)"
  using assms by (simp add: RegisterGcs_eq)

lemma RegisterGcs_connect_fails:
  assumes "ok (Attach env)" and "\<not> ok (Connect env (fill_client_info env ip sock store cfg r))"
  shows "RegisterGcs env ip sock store cfg r =
    (Connect env (fill_client_info env ip sock store cfg r),
     r\<lparr>trace := trace r @ [GcsAttach, ClientTableGetLocalClient,
        ClientTableConnect (fill_client_info env ip sock store cfg r)]\<rparr>)"
  using assms by (simp add: RegisterGcs_eq Let_def)

lemma RegisterGcs_published:
  assumes "ok (Attach env)" and "ok (Connect env (fill_client_info env ip sock store cfg r))"
  shows "RegisterGcs env ip sock store cfg r =
    (NodeManager_RegisterGcs env,
     r\<lparr>trace := trace r @ [GcsAttach, ClientTableGetLocalClient,
        ClientTableConnect (fill_client_info env ip sock store cfg r), NodeManagerRegisterGcs]\<rparr>)"
  using assms by (simp add: RegisterGcs_eq Let_def)

text \<open>
  Claim C3. \<^verbatim>\<open>RegisterGcs\<close> calls, in this order, the attach of the directory client, the
  read of the descriptor template, the publication of the filled descriptor \<open>ci\<close> and the
  hook of the node manager; its history is a prefix of these four calls and nothing else
  of the state changes. When the attach fails nothing more is called (nothing is
  published) and its status is returned; when the publication fails the hook is not
  called and the publication's status is returned; otherwise the hook's status is
  returned. The result is ok exactly when all three are.
\<close>

theorem RegisterGcs_ordered_short_circuit:
  assumes run: "RegisterGcs env ip sock store cfg r = (status, r')"
    and ci: "ci = fill_client_info env ip sock store cfg r"
  shows "r' = r\<lparr>trace := trace r'\<rparr>
    \<and> (\<exists>n. trace r' = trace r @ take n [GcsAttach, ClientTableGetLocalClient,
                                        ClientTableConnect ci, NodeManagerRegisterGcs])
    \<and> (\<not> ok (Attach env) \<longrightarrow>
         status = Attach env \<and> trace r' = trace r @ [GcsAttach]
         \<and> published (trace r') = published (trace r))
    \<and> (ok (Attach env) \<and> \<not> ok (Connect env ci) \<longrightarrow>
         status = Connect env ci
         \<and> trace r' = trace r @ [GcsAttach, ClientTableGetLocalClient, ClientTableConnect ci])
    \<and> (ok (Attach env) \<and> ok (Connect env ci) \<longrightarrow>
         status = NodeManager_RegisterGcs env
         \<and> trace r' = trace r @ [GcsAttach, ClientTableGetLocalClient, ClientTableConnect ci,
                                  NodeManagerRegisterGcs])
    \<and> (ok status \<longleftrightarrow> ok (Attach env) \<and> ok (Connect env ci) \<and> ok (NodeManager_RegisterGcs env))"
proof -
  let ?all = "[GcsAttach, ClientTableGetLocalClient, ClientTableConnect ci, NodeManagerRegisterGcs]"
  consider (attach) "\<not> ok (Attach env)"
    | (connect) "ok (Attach env)" "\<not> ok (Connect env ci)"
    | (hook) "ok (Attach env)" "ok (Connect env ci)"
    by blast
  then show ?thesis
  proof cases
    case attach
    from run RegisterGcs_attach_fails [OF attach, of ip sock store cfg r]
    have s: "status = Attach env" and r': "r' = r\<lparr>trace := trace r @ [GcsAttach]\<rparr>"
      by simp_all
    have t: "trace r' = trace r @ take 1 ?all"
      by (simp add: r')
    have "\<exists>n. trace r' = trace r @ take n ?all"
      using t by (rule exI)
    moreover have "r' = r\<lparr>trace := trace r'\<rparr>"
      by (simp add: r')
    moreover have "published (trace r') = published (trace r)"
      by (simp add: r' published_append)
    moreover have "trace r' = trace r @ [GcsAttach]"
      by (simp add: r')
    ultimately show ?thesis
      using attach s by simp
  next
    case connect
    from run RegisterGcs_connect_fails [of env ip sock store cfg r] connect ci
    have s: "status = Connect env ci"
      and r': "r' = r\<lparr>trace := trace r @ [GcsAttach, ClientTableGetLocalClient,
                                          ClientTableConnect ci]\<rparr>"
      by simp_all
    have t: "trace r' = trace r @ take 3 ?all"
      by (simp add: r' numeral_3_eq_3)
    have "\<exists>n. trace r' = trace r @ take n ?all"
      using t by (rule exI)
    moreover have "r' = r\<lparr>trace := trace r'\<rparr>"
      by (simp add: r')
    moreover have "trace r' = trace r @ [GcsAttach, ClientTableGetLocalClient, ClientTableConnect ci]"
      by (simp add: r')
    ultimately show ?thesis
      using connect s by simp
  next
    case hook
    from run RegisterGcs_published [of env ip sock store cfg r] hook ci
    have s: "status = NodeManager_RegisterGcs env"
      and r': "r' = r\<lparr>trace := trace r @ ?all\<rparr>"
      by simp_all
    have t: "trace r' = trace r @ take 4 ?all"
      by (simp add: r')
    have "\<exists>n. trace r' = trace r @ take n ?all"
      using t by (rule exI)
    moreover have "r' = r\<lparr>trace := trace r'\<rparr>"
      by (simp add: r')
    moreover have "trace r' = trace r @ ?all"
      by (simp add: r')
    ultimately show ?thesis
      using hook s by simp
  qed
qed

theorem RegisterGcs_ordered_short_circuit_witness:
  "fst (RegisterGcs (sample_env (NotOK ''attach'') OK OK) ''10.0.0.1'' ''/tmp/x.sock''
          ''/tmp/store'' sample_config sample_raylet) = NotOK ''attach''
   \<and> trace (snd (RegisterGcs (sample_env (NotOK ''attach'') OK OK) ''10.0.0.1'' ''/tmp/x.sock''
          ''/tmp/store'' sample_config sample_raylet)) = [GcsAttach]
   \<and> fst (RegisterGcs (sample_env OK (NotOK ''connect'') OK) ''10.0.0.1'' ''/tmp/x.sock''
          ''/tmp/store'' sample_config sample_raylet) = NotOK ''connect''
   \<and> NodeManagerRegisterGcs \<notin> set (trace (snd (RegisterGcs (sample_env OK (NotOK ''connect'') OK)
          ''10.0.0.1'' ''/tmp/x.sock'' ''/tmp/store'' sample_config sample_raylet)))
   \<and> fst (RegisterGcs (sample_env OK OK (NotOK ''hook'')) ''10.0.0.1'' ''/tmp/x.sock''
          ''/tmp/store'' sample_config sample_raylet) = NotOK ''hook''
   \<and> fst (RegisterGcs (sample_env OK OK OK) ''10.0.0.1'' ''/tmp/x.sock''
          ''/tmp/store'' sample_config sample_raylet) = OK
   \<and> length (trace (snd (RegisterGcs (sample_env OK OK OK) ''10.0.0.1'' ''/tmp/x.sock''
          ''/tmp/store'' sample_config sample_raylet))) = 4"
proof -
  note inst = RegisterGcs_ordered_short_circuit [OF prod.collapse [symmetric] refl]
  have [simp]: "trace sample_raylet = []"
    by (simp add: sample_raylet_def)
  have [simp]: "\<And>a c h. Attach (sample_env a c h) = a" "\<And>a c h x. Connect (sample_env a c h) x = c"
    "\<And>a c h. NodeManager_RegisterGcs (sample_env a c h) = h"
    by (simp_all add: sample_env_def)
  show ?thesis
    using inst [of "sample_env (NotOK ''attach'') OK OK" "''10.0.0.1''" "''/tmp/x.sock''"
        "''/tmp/store''" sample_config sample_raylet]
      inst [of "sample_env OK (NotOK ''connect'') OK" "''10.0.0.1''" "''/tmp/x.sock''"
        "''/tmp/store''" sample_config sample_raylet]
      inst [of "sample_env OK OK (NotOK ''hook'')" "''10.0.0.1''" "''/tmp/x.sock''"
        "''/tmp/store''" sample_config sample_raylet]
      inst [of "sample_env OK OK OK" "''10.0.0.1''" "''/tmp/x.sock''"
        "''/tmp/store''" sample_config sample_raylet]
    by simp
qed

subsection \<open>The constructor\<close>

lemma three_accepts:
  "DoAcceptNodeManager (DoAcceptObjectManager (DoAccept r)) =
     r\<lparr>pending := (\<lambda>a. Suc (pending r a)),
       trace := trace r @ [AsyncAccept LocalAcceptor, AsyncAccept ObjectManagerAcceptor,
                           AsyncAccept NodeManagerAcceptor]\<rparr>"
proof -
  have "(pending r)(LocalAcceptor := Suc (pending r LocalAcceptor),
          ObjectManagerAcceptor := Suc (pending r ObjectManagerAcceptor),
          NodeManagerAcceptor := Suc (pending r NodeManagerAcceptor)) =
        (\<lambda>a. Suc (pending r a))"
  proof
    fix a
    show "((pending r)(LocalAcceptor := Suc (pending r LocalAcceptor),
          ObjectManagerAcceptor := Suc (pending r ObjectManagerAcceptor),
          NodeManagerAcceptor := Suc (pending r NodeManagerAcceptor))) a = Suc (pending r a)"
      by (cases a) simp_all
  qed
  then show ?thesis
    by (simp add: DoAcceptNodeManager_def DoAcceptObjectManager_def DoAccept_def
        async_accept_def emit_def)
qed

lemma RegisterGcs_keeps:
  "object_manager_acceptor (snd (RegisterGcs env ip sock store cfg r)) = object_manager_acceptor r"
  "node_manager_acceptor (snd (RegisterGcs env ip sock store cfg r)) = node_manager_acceptor r"
  "pending (snd (RegisterGcs env ip sock store cfg r)) = pending r"
  "socket_name (snd (RegisterGcs env ip sock store cfg r)) = socket_name r"
  by (simp_all add: RegisterGcs_eq Let_def)

lemma RegisterGcs_publishes:
  "published (trace (snd (RegisterGcs env ip sock store cfg r))) =
     published (trace r) @
       (if ok (Attach env) then [fill_client_info env ip sock store cfg r] else [])"
  by (simp add: RegisterGcs_eq Let_def published_append)

lemma Raylet_ctor_bound:
  assumes "subsystems_built env" and "local_bound env sock"
    and "bound_port env ObjectManagerAcceptor
           (ucast (ObjectManagerConfig.object_manager_port omc)) = Some om_port"
    and "bound_port env NodeManagerAcceptor
           (ucast (NodeManagerConfig.node_manager_port nmc)) = Some nm_port"
  shows "Raylet_ctor env sock ip nmc omc history =
     (case RegisterGcs env ip sock (store_socket_name omc) nmc
             (after_accepts sock om_port nm_port history) of
        (status, r) \<Rightarrow> if ok status then Inr r else Inl (BadStatus status, trace r))"
  using assms
  by (simp add: Raylet_ctor_def three_accepts after_accepts_def RegisterPeriodicTimer_def
      split: prod.splits)

lemma Raylet_ctor_throws:
  assumes "\<not> subsystems_built env \<or> \<not> local_bound env sock
    \<or> bound_port env ObjectManagerAcceptor
         (ucast (ObjectManagerConfig.object_manager_port omc)) = None
    \<or> bound_port env NodeManagerAcceptor
         (ucast (NodeManagerConfig.node_manager_port nmc)) = None"
  shows "\<exists>f. Raylet_ctor env sock ip nmc omc history = Inl (f, history)
    \<and> f \<in> {SubsystemThrew, AcceptorThrew LocalAcceptor, AcceptorThrew ObjectManagerAcceptor,
            AcceptorThrew NodeManagerAcceptor}"
  using assms by (auto simp: Raylet_ctor_def split: option.splits)

lemma ctor_history_bound:
  assumes "subsystems_built env" and "local_bound env sock"
    and "bound_port env ObjectManagerAcceptor
           (ucast (ObjectManagerConfig.object_manager_port omc)) = Some om_port"
    and "bound_port env NodeManagerAcceptor
           (ucast (NodeManagerConfig.node_manager_port nmc)) = Some nm_port"
  shows "ctor_history (Raylet_ctor env sock ip nmc omc history) =
     trace (snd (RegisterGcs env ip sock (store_socket_name omc) nmc
                   (after_accepts sock om_port nm_port history)))"
  by (simp add: Raylet_ctor_bound [OF assms] split: prod.splits)

lemma sample_env_simps:
  "Attach (sample_env a c h) = a"
  "Connect (sample_env a c h) x = c"
  "NodeManager_RegisterGcs (sample_env a c h) = h"
  "subsystems_built (sample_env a c h)"
  "local_bound (sample_env a c h) path"
  "bound_port (sample_env a c h) ObjectManagerAcceptor 0 = Some 40001"
  "bound_port (sample_env a c h) NodeManagerAcceptor 0 = Some 40002"
  "bound_port (sample_env a c h) b 80 = None"
  by (simp_all add: sample_env_def)

lemma sample_ctor_returns:
  "Raylet_ctor (sample_env OK OK OK) ''/tmp/x.sock'' ''10.0.0.1'' sample_config sample_om_config
     history =
   Inr (snd (RegisterGcs (sample_env OK OK OK) ''10.0.0.1'' ''/tmp/x.sock'' ''/tmp/store''
     sample_config (after_accepts ''/tmp/x.sock'' 40001 40002 history)))"
proof -
  have "Raylet_ctor (sample_env OK OK OK) ''/tmp/x.sock'' ''10.0.0.1'' sample_config
      sample_om_config history =
     (case RegisterGcs (sample_env OK OK OK) ''10.0.0.1'' ''/tmp/x.sock''
             (store_socket_name sample_om_config) sample_config
             (after_accepts ''/tmp/x.sock'' 40001 40002 history) of
        (status, r) \<Rightarrow> if ok status then Inr r else Inl (BadStatus status, trace r))"
    by (rule Raylet_ctor_bound)
      (simp_all add: sample_env_simps sample_config_def sample_om_config_def)
  then show ?thesis
    by (simp add: RegisterGcs_eq Let_def sample_env_simps sample_om_config_def)
qed

text \<open>
  Claim C4. When the subsystems and the three acceptors are constructed, the operating
  system having bound \<open>om_port\<close> and \<open>nm_port\<close> for the requested ports (whatever these
  are, 0 included), every descriptor that the constructor published reports exactly
  \<open>nm_port\<close> and \<open>om_port\<close>, there is one such descriptor when the attach succeeds, and
  a constructed raylet holds these ports in its acceptors. When a constructor of the
  initialiser list throws, the body does not run: the history is unchanged and nothing is
  published.
\<close>

theorem published_ports_are_bound_ports:
  "(subsystems_built env \<and> local_bound env sock
      \<and> bound_port env ObjectManagerAcceptor
           (ucast (ObjectManagerConfig.object_manager_port omc)) = Some om_port
      \<and> bound_port env NodeManagerAcceptor
           (ucast (NodeManagerConfig.node_manager_port nmc)) = Some nm_port \<longrightarrow>
      (\<exists>ds. published (ctor_history (Raylet_ctor env sock ip nmc omc history)) =
               published history @ ds
          \<and> (ok (Attach env) \<longrightarrow> length ds = 1)
          \<and> (\<forall>ci \<in> set ds.
                node_manager_port ci = uint nm_port \<and> object_manager_port ci = uint om_port))
      \<and> (\<forall>r. Raylet_ctor env sock ip nmc omc history = Inr r \<longrightarrow>
            node_manager_acceptor r = nm_port \<and> object_manager_acceptor r = om_port))
   \<and> (\<not> subsystems_built env \<or> \<not> local_bound env sock
      \<or> bound_port env ObjectManagerAcceptor
           (ucast (ObjectManagerConfig.object_manager_port omc)) = None
      \<or> bound_port env NodeManagerAcceptor
           (ucast (NodeManagerConfig.node_manager_port nmc)) = None \<longrightarrow>
      (\<exists>f. Raylet_ctor env sock ip nmc omc history = Inl (f, history)
         \<and> f \<in> {SubsystemThrew, AcceptorThrew LocalAcceptor,
                 AcceptorThrew ObjectManagerAcceptor, AcceptorThrew NodeManagerAcceptor}))"
proof (intro conjI impI)
  assume bound: "subsystems_built env \<and> local_bound env sock
      \<and> bound_port env ObjectManagerAcceptor
           (ucast (ObjectManagerConfig.object_manager_port omc)) = Some om_port
      \<and> bound_port env NodeManagerAcceptor
           (ucast (NodeManagerConfig.node_manager_port nmc)) = Some nm_port"
  let ?r3 = "after_accepts sock om_port nm_port history"
  let ?run = "RegisterGcs env ip sock (store_socket_name omc) nmc ?r3"
  let ?ci = "fill_client_info env ip sock (store_socket_name omc) nmc ?r3"
  let ?ds = "if ok (Attach env) then [?ci] else []"
  have hist: "ctor_history (Raylet_ctor env sock ip nmc omc history) = trace (snd ?run)"
    using bound by (intro ctor_history_bound) simp_all
  have pub: "published (ctor_history (Raylet_ctor env sock ip nmc omc history)) =
      published history @ ?ds"
    by (simp add: hist RegisterGcs_publishes after_accepts_def published_append)
  have len: "ok (Attach env) \<longrightarrow> length ?ds = 1"
    by simp
  have ports: "\<forall>ci \<in> set ?ds. node_manager_port ci = uint nm_port
      \<and> object_manager_port ci = uint om_port"
    by (simp add: fill_client_info_ports after_accepts_def)
  from pub len ports
  show "\<exists>ds. published (ctor_history (Raylet_ctor env sock ip nmc omc history)) =
               published history @ ds
          \<and> (ok (Attach env) \<longrightarrow> length ds = 1)
          \<and> (\<forall>ci \<in> set ds.
                node_manager_port ci = uint nm_port \<and> object_manager_port ci = uint om_port)"
    by blast
  have ctor: "Raylet_ctor env sock ip nmc omc history =
     (case ?run of (status, r) \<Rightarrow> if ok status then Inr r else Inl (BadStatus status, trace r))"
    using bound by (intro Raylet_ctor_bound) simp_all
  show "\<forall>r. Raylet_ctor env sock ip nmc omc history = Inr r \<longrightarrow>
      node_manager_acceptor r = nm_port \<and> object_manager_acceptor r = om_port"
  proof (intro allI impI)
    fix r
    assume "Raylet_ctor env sock ip nmc omc history = Inr r"
    with ctor have "r = snd ?run"
      by (simp split: prod.splits if_splits)
    then show "node_manager_acceptor r = nm_port \<and> object_manager_acceptor r = om_port"
      by (simp add: RegisterGcs_keeps after_accepts_def)
  qed
next
  assume "\<not> subsystems_built env \<or> \<not> local_bound env sock
      \<or> bound_port env ObjectManagerAcceptor
           (ucast (ObjectManagerConfig.object_manager_port omc)) = None
      \<or> bound_port env NodeManagerAcceptor
           (ucast (NodeManagerConfig.node_manager_port nmc)) = None"
  then show "\<exists>f. Raylet_ctor env sock ip nmc omc history = Inl (f, history)
         \<and> f \<in> {SubsystemThrew, AcceptorThrew LocalAcceptor,
                 AcceptorThrew ObjectManagerAcceptor, AcceptorThrew NodeManagerAcceptor}"
    by (rule Raylet_ctor_throws)
qed

theorem published_ports_are_bound_ports_witness:
  "NodeManagerConfig.node_manager_port sample_config = 0
   \<and> ObjectManagerConfig.object_manager_port sample_om_config = 0
   \<and> (\<exists>r. Raylet_ctor (sample_env OK OK OK) ''/tmp/x.sock'' ''10.0.0.1'' sample_config
            sample_om_config [] = Inr r
        \<and> node_manager_acceptor r = 40002 \<and> object_manager_acceptor r = 40001
        \<and> map node_manager_port (published (trace r)) = [40002]
        \<and> map object_manager_port (published (trace r)) = [40001])
   \<and> Raylet_ctor (sample_env OK OK OK) ''/tmp/x.sock'' ''10.0.0.1''
        (sample_config\<lparr>NodeManagerConfig.node_manager_port := 80\<rparr>) sample_om_config [] =
      Inl (AcceptorThrew NodeManagerAcceptor, [])"
proof -
  let ?env = "sample_env OK OK OK"
  let ?ctor = "Raylet_ctor ?env ''/tmp/x.sock'' ''10.0.0.1'' sample_config sample_om_config []"
  have cfg: "NodeManagerConfig.node_manager_port sample_config = 0"
    "ObjectManagerConfig.object_manager_port sample_om_config = 0"
    by (simp_all add: sample_config_def sample_om_config_def)
  obtain r where r: "?ctor = Inr r"
    using sample_ctor_returns [of "[]"] by blast
  have bound: "subsystems_built ?env \<and> local_bound ?env ''/tmp/x.sock''
      \<and> bound_port ?env ObjectManagerAcceptor
           (ucast (ObjectManagerConfig.object_manager_port sample_om_config)) = Some 40001
      \<and> bound_port ?env NodeManagerAcceptor
           (ucast (NodeManagerConfig.node_manager_port sample_config)) = Some 40002"
    by (simp add: cfg sample_env_simps)
  note inst = published_ports_are_bound_ports [of ?env "''/tmp/x.sock''" sample_om_config 40001
      sample_config 40002 "''10.0.0.1''" "[]"]
  from inst bound r obtain ds where pub: "published (trace r) = ds" and len: "length ds = 1"
    and ports: "\<forall>ci \<in> set ds. node_manager_port ci = uint (40002 :: port_t)
        \<and> object_manager_port ci = uint (40001 :: port_t)"
    and acc: "node_manager_acceptor r = 40002" "object_manager_acceptor r = 40001"
    by (auto simp: sample_env_simps)
  from len obtain ci where ds: "ds = [ci]"
    by (cases ds) auto
  have good: "\<exists>r. ?ctor = Inr r
        \<and> node_manager_acceptor r = 40002 \<and> object_manager_acceptor r = 40001
        \<and> map node_manager_port (published (trace r)) = [40002]
        \<and> map object_manager_port (published (trace r)) = [40001]"
    using r acc pub ports by (simp add: ds)
  have bad: "Raylet_ctor ?env ''/tmp/x.sock'' ''10.0.0.1''
        (sample_config\<lparr>NodeManagerConfig.node_manager_port := 80\<rparr>) sample_om_config [] =
      Inl (AcceptorThrew NodeManagerAcceptor, [])"
    by (simp add: Raylet_ctor_def sample_env_simps cfg)
  from cfg good bad show ?thesis
    by (intro conjI)
qed

text \<open>
  Claim C5. When the attach succeeds, \<^verbatim>\<open>RegisterGcs\<close> publishes one descriptor whose name
  list is the template's followed by the names of the resource map in iteration order,
  and whose capacity list is the template's followed by the capacities in the same order.
  For a template whose two lists are aligned (of equal length, as the empty lists are),
  the published lists are of equal length and the \<open>i\<close>-th pair of the map sits at the
  same index of both.
\<close>

theorem resources_parallel:
  assumes run: "RegisterGcs env ip sock store cfg r = (status, r')"
    and attach: "ok (Attach env)"
    and aligned: "length (resources_total_label (GetLocalClient env)) =
        length (resources_total_capacity (GetLocalClient env))"
  shows "\<exists>ci. published (trace r') = published (trace r) @ [ci]
    \<and> resources_total_label ci =
        resources_total_label (GetLocalClient env) @ map fst (resource_config cfg)
    \<and> resources_total_capacity ci =
        resources_total_capacity (GetLocalClient env) @ map snd (resource_config cfg)
    \<and> length (resources_total_label ci) = length (resources_total_capacity ci)
    \<and> (\<forall>i < length (resource_config cfg).
          resources_total_label ci ! (length (resources_total_label (GetLocalClient env)) + i) =
            fst (resource_config cfg ! i)
          \<and> resources_total_capacity ci ! (length (resources_total_label (GetLocalClient env)) + i) =
            snd (resource_config cfg ! i))"
proof -
  let ?ci = "fill_client_info env ip sock store cfg r"
  have r': "r' = snd (RegisterGcs env ip sock store cfg r)"
    using run by simp
  have pub: "published (trace r') = published (trace r) @ [?ci]"
    using attach by (simp add: r' RegisterGcs_publishes)
  have lab: "resources_total_label ?ci =
      resources_total_label (GetLocalClient env) @ map fst (resource_config cfg)"
    and cap: "resources_total_capacity ?ci =
      resources_total_capacity (GetLocalClient env) @ map snd (resource_config cfg)"
    by (rule fill_client_info_resources)+
  have len: "length (resources_total_label ?ci) = length (resources_total_capacity ?ci)"
    using aligned by (simp add: lab cap)
  have idx: "\<forall>i < length (resource_config cfg).
      resources_total_label ?ci ! (length (resources_total_label (GetLocalClient env)) + i) =
        fst (resource_config cfg ! i)
      \<and> resources_total_capacity ?ci ! (length (resources_total_label (GetLocalClient env)) + i) =
        snd (resource_config cfg ! i)"
    by (simp add: lab cap aligned nth_append)
  from pub lab cap len idx show ?thesis
    by blast
qed

theorem resources_parallel_witness:
  "ok (Attach (sample_env OK OK OK))
   \<and> length (resources_total_label (GetLocalClient (sample_env OK OK OK))) =
       length (resources_total_capacity (GetLocalClient (sample_env OK OK OK)))
   \<and> map resources_total_label (published (trace (snd (RegisterGcs (sample_env OK OK OK)
        ''10.0.0.1'' ''/tmp/x.sock'' ''/tmp/store'' sample_config sample_raylet)))) = [[''CPU'']]
   \<and> map resources_total_capacity (published (trace (snd (RegisterGcs (sample_env OK OK OK)
        ''10.0.0.1'' ''/tmp/x.sock'' ''/tmp/store'' sample_config sample_raylet)))) = [[4]]"
proof -
  have attach: "ok (Attach (sample_env OK OK OK))"
    by (simp add: sample_env_def)
  have aligned: "length (resources_total_label (GetLocalClient (sample_env OK OK OK))) =
       length (resources_total_capacity (GetLocalClient (sample_env OK OK OK)))"
    by (simp add: sample_env_def sample_template_def)
  from resources_parallel [OF prod.collapse [symmetric] attach aligned,
      of "''10.0.0.1''" "''/tmp/x.sock''" "''/tmp/store''" sample_config sample_raylet]
  show ?thesis
    using attach aligned
    by (auto simp: sample_env_def sample_template_def sample_config_def sample_raylet_def)
qed

subsection \<open>The accept loops\<close>

lemma handler_pending:
  "pending (HandleAccept gen st error r) = (pending r)(LocalAcceptor := Suc (pending r LocalAcceptor))"
  "pending (HandleAcceptObjectManager gen st error r) =
     (pending r)(ObjectManagerAcceptor := Suc (pending r ObjectManagerAcceptor))"
  "pending (HandleAcceptNodeManager gen st error r) =
     (pending r)(NodeManagerAcceptor := Suc (pending r NodeManagerAcceptor))"
  by (simp_all add: HandleAccept_def HandleAcceptObjectManager_def HandleAcceptNodeManager_def
      DoAccept_def DoAcceptObjectManager_def DoAcceptNodeManager_def async_accept_def emit_def)

lemma handler_trace:
  "trace (HandleAccept gen st error r) =
     trace (if error = 0
            then emit (ConnectionCreate
               \<lparr>client_handler = NodeManager_ProcessNewClient,
                message_handler = NodeManager_ProcessClientMessage,
                socket = socket_member,
                debug_label = ''worker'',
                message_type_enum_names = node_manager_message_enum st,
                error_message_type = word_of_int (MessageType_DisconnectClient (protocol gen))\<rparr>) r
            else r) @ [AsyncAccept LocalAcceptor]"
  "trace (HandleAcceptObjectManager gen st error r) =
     trace r @ [ConnectionCreate
          \<lparr>client_handler = ObjectManager_ProcessNewClient,
           message_handler = ObjectManager_ProcessClientMessage,
           socket = object_manager_socket_member,
           debug_label = ''object manager'',
           message_type_enum_names = object_manager_message_enum st,
           error_message_type =
             word_of_int (MessageType_DisconnectClient (object_manager_protocol gen))\<rparr>,
        AsyncAccept ObjectManagerAcceptor]"
  "trace (HandleAcceptNodeManager gen st error r) =
     trace (if error = 0
        then emit (ConnectionCreate
               \<lparr>client_handler = NodeManager_ProcessNewNodeManager,
                message_handler = NodeManager_ProcessNodeManagerMessage,
                socket = node_manager_socket_member,
                debug_label = ''node manager'',
                message_type_enum_names = node_manager_message_enum st,
                error_message_type = word_of_int (MessageType_DisconnectClient (protocol gen))\<rparr>) r
        else r) @ [AsyncAccept NodeManagerAcceptor]"
  by (simp_all add: HandleAccept_def HandleAcceptObjectManager_def HandleAcceptNodeManager_def
      DoAccept_def DoAcceptObjectManager_def DoAcceptNodeManager_def async_accept_def emit_def)

lemma bound_handler_pending:
  "pending (bound_handler gen st a error r) = (pending r)(a := Suc (pending r a))"
  by (cases a) (simp_all add: handler_pending)

lemma accept_completion_armed:
  assumes "0 < pending r a"
  shows "\<exists>r'. accept_completion gen st a error r = Some r' \<and> pending r' = pending r"
proof -
  have "(pending r)(a := Suc (pending r a - 1)) = pending r"
    using assms by (simp add: fun_eq_iff)
  then show ?thesis
    using assms by (simp add: accept_completion_def bound_handler_pending)
qed

lemma event_loop_armed:
  "\<forall>a. 0 < pending r a \<Longrightarrow>
   \<exists>r'. event_loop gen st completions r = Some r' \<and> pending r' = pending r"
proof (induction completions arbitrary: r)
  case Nil
  then show ?case
    by simp
next
  case (Cons c completions)
  obtain a error where c: "c = (a, error)"
    by (cases c)
  from Cons.prems have "0 < pending r a"
    by simp
  from accept_completion_armed [OF this, of gen st error]
  obtain r1 where step: "accept_completion gen st a error r = Some r1" and same: "pending r1 = pending r"
    by blast
  from Cons.prems same have "\<forall>a. 0 < pending r1 a"
    by simp
  from Cons.IH [OF this] obtain r' where "event_loop gen st completions r1 = Some r'"
    and "pending r' = pending r1"
    by blast
  then show ?case
    using step same by (simp add: c)
qed

text \<open>
  Claim C6. Each of the three accept handlers, for every error code, leaves one more
  accept outstanding on its own acceptor, and the \<^verbatim>\<open>async_accept\<close> is the last call it
  makes. Hence, when every acceptor has an accept outstanding, every sequence of accept
  completions, with any outcomes, is served to its end and leaves every acceptor as
  armed as before.
\<close>

theorem accept_handlers_rearm:
  "pending (HandleAccept gen st error r) LocalAcceptor = Suc (pending r LocalAcceptor)
   \<and> last (trace (HandleAccept gen st error r)) = AsyncAccept LocalAcceptor
   \<and> pending (HandleAcceptObjectManager gen st error r) ObjectManagerAcceptor =
       Suc (pending r ObjectManagerAcceptor)
   \<and> last (trace (HandleAcceptObjectManager gen st error r)) = AsyncAccept ObjectManagerAcceptor
   \<and> pending (HandleAcceptNodeManager gen st error r) NodeManagerAcceptor =
       Suc (pending r NodeManagerAcceptor)
   \<and> last (trace (HandleAcceptNodeManager gen st error r)) = AsyncAccept NodeManagerAcceptor
   \<and> ((\<forall>a. 0 < pending r a) \<longrightarrow>
        (\<exists>r'. event_loop gen st completions r = Some r' \<and> (\<forall>a. pending r' a = pending r a)))"
proof -
  have "(\<forall>a. 0 < pending r a) \<longrightarrow>
        (\<exists>r'. event_loop gen st completions r = Some r' \<and> (\<forall>a. pending r' a = pending r a))"
    using event_loop_armed [of r gen st completions] by auto
  then show ?thesis
    by (simp add: handler_pending handler_trace)
qed

theorem accept_handlers_rearm_witness:
  "pending (HandleAccept sample_generated sample_statics 1 sample_raylet) LocalAcceptor = 2
   \<and> pending (HandleAcceptObjectManager sample_generated sample_statics 1 sample_raylet)
        ObjectManagerAcceptor = 2
   \<and> pending (HandleAcceptNodeManager sample_generated sample_statics 1 sample_raylet)
        NodeManagerAcceptor = 2
   \<and> (\<exists>r'. event_loop sample_generated sample_statics
          [(LocalAcceptor, 1), (NodeManagerAcceptor, 104), (ObjectManagerAcceptor, 9),
           (LocalAcceptor, 0)] sample_raylet = Some r'
        \<and> pending r' LocalAcceptor = 1 \<and> pending r' ObjectManagerAcceptor = 1
        \<and> pending r' NodeManagerAcceptor = 1)"
proof -
  have armed: "\<forall>a. 0 < pending sample_raylet a"
    by (simp add: sample_raylet_def)
  have one: "\<And>a. pending sample_raylet a = 1"
    by (simp add: sample_raylet_def)
  from accept_handlers_rearm [of sample_generated sample_statics 1 sample_raylet
      "[(LocalAcceptor, 1), (NodeManagerAcceptor, 104), (ObjectManagerAcceptor, 9),
           (LocalAcceptor, 0)]"] armed
  show ?thesis
    by (auto simp: one)
qed

subsection \<open>Connections\<close>

lemma static_init_tables:
  assumes "static_init gen = Some (Inr (st, history))"
  shows "build_table (protocol gen) = Some (Inr (node_manager_message_enum st))"
    and "build_table (object_manager_protocol gen) = Some (Inr (object_manager_message_enum st))"
    and "history = [TableBuilt (node_manager_message_enum st),
                    TableBuilt (object_manager_message_enum st)]"
  using assms by (auto simp: static_init_def split: option.splits sum.splits)

lemma static_init_fatal:
  assumes "static_init gen = Some (Inl (f, history))"
  shows "history = [] \<or> (\<exists>nm. history = [TableBuilt nm])"
  using assms by (auto simp: static_init_def split: option.splits sum.splits)

lemma build_table_raw_array:
  assumes "EnumNamesMessageType family = raw_array names"
    and "nat (sint (word_of_int (MessageType_MIN family) :: c_int)) + length names < 2 ^ 63"
    and "int (nat (sint (word_of_int (MessageType_MIN family) :: c_int)) + length names) - 1 =
      sint (word_of_int (MessageType_MAX family) :: c_int)"
  shows "build_table family =
    Some (Inr (replicate (nat (sint (word_of_int (MessageType_MIN family) :: c_int)))
                 ''EmptyMessageType'' @ names))"
proof -
  let ?s = "word_of_int (MessageType_MIN family) :: c_int"
  let ?table = "replicate (nat (sint ?s)) ''EmptyMessageType'' @ names"
  have "names_loop (raw_array names) 0 (placeholder_loop 0 ?s []) = Some ?table"
    by (simp add: names_loop_names raw_array_def placeholder_loop_0)
  moreover have "size_check (word_of_int (MessageType_MAX family)) ?table"
    using assms(2,3) by (subst size_check_exact) simp_all
  ultimately show ?thesis
    by (simp add: build_table_def GenerateEnumNames_def assms(1))
qed

lemma static_init_sample:
  "static_init sample_generated =
     Some (Inr (sample_statics,
       [TableBuilt [''EmptyMessageType'', ''A'', ''B''], TableBuilt [''EmptyMessageType'', ''X'']]))"
proof -
  have a: "build_table (protocol sample_generated) = Some (Inr [''EmptyMessageType'', ''A'', ''B''])"
    using build_table_raw_array [of "protocol sample_generated" "[''A'', ''B'']"]
    by (simp add: sample_generated_def)
  have b: "build_table (object_manager_protocol sample_generated) =
      Some (Inr [''EmptyMessageType'', ''X''])"
    using build_table_raw_array [of "object_manager_protocol sample_generated" "[''X'']"]
    by (simp add: sample_generated_def)
  show ?thesis
    by (simp add: static_init_def a b sample_statics_def)
qed

text \<open>
  Claim C7. Let the static tables be built. The table \<^verbatim>\<open>node_manager_message_enum\<close> is
  the one generated from the node-manager protocol family. On a successful accept
  (error code 0) the local-channel handler creates exactly one connection, wired to
  \<^verbatim>\<open>ProcessNewClient\<close> and \<^verbatim>\<open>ProcessClientMessage\<close> of the node manager, and the
  node-manager handler exactly one, wired to \<^verbatim>\<open>ProcessNewNodeManager\<close> and
  \<^verbatim>\<open>ProcessNodeManagerMessage\<close>; both carry that table and the family's
  \<^verbatim>\<open>DisconnectClient\<close> tag. On any other error code neither handler creates a connection.
\<close>

theorem node_manager_connections:
  assumes "static_init gen = Some (Inr (st, history))"
  shows "build_table (protocol gen) = Some (Inr (node_manager_message_enum st))
    \<and> created (trace (HandleAccept gen st error r)) =
        created (trace r) @
          (if error = 0
           then [\<lparr>client_handler = NodeManager_ProcessNewClient,
                  message_handler = NodeManager_ProcessClientMessage,
                  socket = socket_member,
                  debug_label = ''worker'',
                  message_type_enum_names = node_manager_message_enum st,
                  error_message_type = word_of_int (MessageType_DisconnectClient (protocol gen))\<rparr>]
           else [])
    \<and> created (trace (HandleAcceptNodeManager gen st error r)) =
        created (trace r) @
          (if error = 0
           then [\<lparr>client_handler = NodeManager_ProcessNewNodeManager,
                  message_handler = NodeManager_ProcessNodeManagerMessage,
                  socket = node_manager_socket_member,
                  debug_label = ''node manager'',
                  message_type_enum_names = node_manager_message_enum st,
                  error_message_type = word_of_int (MessageType_DisconnectClient (protocol gen))\<rparr>]
           else [])"
proof -
  have "build_table (protocol gen) = Some (Inr (node_manager_message_enum st))"
    using assms by (rule static_init_tables)
  then show ?thesis
    by (simp add: handler_trace created_append emit_def)
qed

theorem node_manager_connections_witness:
  "created (trace (HandleAccept sample_generated sample_statics 0 sample_raylet)) =
     [\<lparr>client_handler = NodeManager_ProcessNewClient,
       message_handler = NodeManager_ProcessClientMessage,
       socket = socket_member,
       debug_label = ''worker'',
       message_type_enum_names = [''EmptyMessageType'', ''A'', ''B''],
       error_message_type = 2\<rparr>]
   \<and> created (trace (HandleAccept sample_generated sample_statics 111 sample_raylet)) = []
   \<and> created (trace (HandleAcceptNodeManager sample_generated sample_statics 0 sample_raylet)) =
     [\<lparr>client_handler = NodeManager_ProcessNewNodeManager,
       message_handler = NodeManager_ProcessNodeManagerMessage,
       socket = node_manager_socket_member,
       debug_label = ''node manager'',
       message_type_enum_names = [''EmptyMessageType'', ''A'', ''B''],
       error_message_type = 2\<rparr>]
   \<and> created (trace (HandleAcceptNodeManager sample_generated sample_statics 111 sample_raylet)) = []"
  using node_manager_connections [OF static_init_sample, of 0 sample_raylet]
    node_manager_connections [OF static_init_sample, of 111 sample_raylet]
  by (simp add: sample_raylet_def sample_statics_def sample_generated_def)

text \<open>
  Claim C8. For every error code, failure included, the object-manager handler creates
  exactly one connection, wired to \<^verbatim>\<open>ProcessNewClient\<close> and \<^verbatim>\<open>ProcessClientMessage\<close> of
  the object manager, with the object-manager table and disconnect tag.
\<close>

theorem object_manager_connection_unconditional:
  "created (trace (HandleAcceptObjectManager gen st error r)) =
     created (trace r) @
       [\<lparr>client_handler = ObjectManager_ProcessNewClient,
         message_handler = ObjectManager_ProcessClientMessage,
         socket = object_manager_socket_member,
         debug_label = ''object manager'',
         message_type_enum_names = object_manager_message_enum st,
         error_message_type =
           word_of_int (MessageType_DisconnectClient (object_manager_protocol gen))\<rparr>]"
  by (simp add: handler_trace created_append)

theorem object_manager_connection_unconditional_witness:
  "created (trace (HandleAcceptObjectManager sample_generated sample_statics 111 sample_raylet)) =
     [\<lparr>client_handler = ObjectManager_ProcessNewClient,
       message_handler = ObjectManager_ProcessClientMessage,
       socket = object_manager_socket_member,
       debug_label = ''object manager'',
       message_type_enum_names = [''EmptyMessageType'', ''X''],
       error_message_type = 1\<rparr>]"
  using object_manager_connection_unconditional [of sample_generated sample_statics 111 sample_raylet]
  by (simp add: sample_raylet_def sample_statics_def sample_generated_def)

subsection \<open>The start of the process\<close>

lemma RegisterGcs_trace_shape:
  "\<exists>rest. trace (snd (RegisterGcs env ip sock store cfg r)) = trace r @ GcsAttach # rest
     \<and> (\<forall>a. AsyncAccept a \<notin> set rest) \<and> (\<forall>t. TableBuilt t \<notin> set rest)"
  by (simp add: RegisterGcs_eq Let_def)

lemma static_init_eq:
  "static_init gen =
     (case GenerateEnumNames (EnumNamesMessageType (protocol gen))
             (word_of_int (MessageType_MIN (protocol gen)))
             (word_of_int (MessageType_MAX (protocol gen))) of
        None \<Rightarrow> None
      | Some (Inl f) \<Rightarrow> Some (Inl (f, []))
      | Some (Inr nm) \<Rightarrow>
          (case GenerateEnumNames (EnumNamesMessageType (object_manager_protocol gen))
                  (word_of_int (MessageType_MIN (object_manager_protocol gen)))
                  (word_of_int (MessageType_MAX (object_manager_protocol gen))) of
             None \<Rightarrow> None
           | Some (Inl f) \<Rightarrow> Some (Inl (f, [TableBuilt nm]))
           | Some (Inr om) \<Rightarrow>
               Some (Inr (\<lparr>node_manager_message_enum = nm, object_manager_message_enum = om\<rparr>,
                          [TableBuilt nm, TableBuilt om]))))"
  unfolding static_init_def build_table_def by (rule refl)

lemma sample_tables:
  "GenerateEnumNames (EnumNamesMessageType (protocol sample_generated))
     (word_of_int (MessageType_MIN (protocol sample_generated)))
     (word_of_int (MessageType_MAX (protocol sample_generated))) =
   Some (Inr [''EmptyMessageType'', ''A'', ''B''])"
  "GenerateEnumNames (EnumNamesMessageType (object_manager_protocol sample_generated))
     (word_of_int (MessageType_MIN (object_manager_protocol sample_generated)))
     (word_of_int (MessageType_MAX (object_manager_protocol sample_generated))) =
   Some (Inr [''EmptyMessageType'', ''X''])"
  using build_table_raw_array [of "protocol sample_generated" "[''A'', ''B'']"]
    build_table_raw_array [of "object_manager_protocol sample_generated" "[''X'']"]
  by (simp_all add: sample_generated_def build_table_def)

lemma sample_status:
  "fst (RegisterGcs (sample_env a c h) ip sock store cfg r) =
     (if a \<noteq> OK then a else if c \<noteq> OK then c else h)"
  by (simp add: RegisterGcs_eq Let_def sample_env_simps ok_iff)

text \<open>
  Claim C9. The start of the process, in terms of what \<^verbatim>\<open>GenerateEnumNames\<close> yields for
  the two generated families. If a name loop never returns, nothing else happens. If the
  check of the first table fails, the process ends with an empty history; if that of the
  second fails, it ends after the first table. With both tables built, a constructor of
  the initialiser list that throws stops the start before any accept loop is started.
  Otherwise \<^verbatim>\<open>RegisterGcs\<close> is run on the state whose history is the two tables followed
  by the \<^verbatim>\<open>async_accept\<close> of the local-channel, the object-manager and the node-manager
  acceptor in this order; its own history begins with the attach, starts no accept and
  builds no table; and the process ends with a fatal check exactly when the status of
  \<^verbatim>\<open>RegisterGcs\<close> is not ok, while otherwise the raylet is constructed with these two
  tables.
\<close>

theorem bootstrap_sequence:
  fixes env :: "'c collaborators"
  shows
  "let nm_table = GenerateEnumNames (EnumNamesMessageType (protocol gen))
         (word_of_int (MessageType_MIN (protocol gen)))
         (word_of_int (MessageType_MAX (protocol gen)));
       om_table = GenerateEnumNames (EnumNamesMessageType (object_manager_protocol gen))
         (word_of_int (MessageType_MIN (object_manager_protocol gen)))
         (word_of_int (MessageType_MAX (object_manager_protocol gen)));
       start = bootstrap gen env sock ip nmc omc
   in (nm_table = None \<longrightarrow> start = None)
    \<and> (\<forall>f. nm_table = Some (Inl f) \<longrightarrow> start = Some (Inl (f, [])))
    \<and> (\<forall>nm. nm_table = Some (Inr nm) \<longrightarrow>
          (om_table = None \<longrightarrow> start = None)
        \<and> (\<forall>f. om_table = Some (Inl f) \<longrightarrow> start = Some (Inl (f, [TableBuilt nm])))
        \<and> (\<forall>om. om_table = Some (Inr om) \<longrightarrow>
              (\<not> subsystems_built env \<or> \<not> local_bound env sock
                 \<or> bound_port env ObjectManagerAcceptor
                      (ucast (ObjectManagerConfig.object_manager_port omc)) = None
                 \<or> bound_port env NodeManagerAcceptor
                      (ucast (NodeManagerConfig.node_manager_port nmc)) = None \<longrightarrow>
                 (\<exists>f. start = Some (Inl (f, [TableBuilt nm, TableBuilt om]))
                    \<and> f \<in> {SubsystemThrew, AcceptorThrew LocalAcceptor,
                            AcceptorThrew ObjectManagerAcceptor,
                            AcceptorThrew NodeManagerAcceptor}))
            \<and> (\<forall>om_port nm_port.
                  subsystems_built env \<and> local_bound env sock
                  \<and> bound_port env ObjectManagerAcceptor
                       (ucast (ObjectManagerConfig.object_manager_port omc)) = Some om_port
                  \<and> bound_port env NodeManagerAcceptor
                       (ucast (NodeManagerConfig.node_manager_port nmc)) = Some nm_port \<longrightarrow>
                  (\<exists>status r rest.
                     RegisterGcs env ip sock (store_socket_name omc) nmc
                       \<lparr>socket_name = sock,
                        object_manager_acceptor = om_port,
                        node_manager_acceptor = nm_port,
                        pending = (\<lambda>a. 1),
                        trace = [TableBuilt nm, TableBuilt om,
                                 AsyncAccept LocalAcceptor, AsyncAccept ObjectManagerAcceptor,
                                 AsyncAccept NodeManagerAcceptor]\<rparr> = (status, r)
                     \<and> trace r = [TableBuilt nm, TableBuilt om,
                                  AsyncAccept LocalAcceptor, AsyncAccept ObjectManagerAcceptor,
                                  AsyncAccept NodeManagerAcceptor, GcsAttach] @ rest
                     \<and> (\<forall>a. AsyncAccept a \<notin> set rest) \<and> (\<forall>t. TableBuilt t \<notin> set rest)
                     \<and> start =
                         Some (if ok status
                               then Inr (\<lparr>node_manager_message_enum = nm,
                                          object_manager_message_enum = om\<rparr>, r)
                               else Inl (BadStatus status, trace r))))))"
proof -
  let ?nm_table = "GenerateEnumNames (EnumNamesMessageType (protocol gen))
         (word_of_int (MessageType_MIN (protocol gen)))
         (word_of_int (MessageType_MAX (protocol gen)))"
  let ?om_table = "GenerateEnumNames (EnumNamesMessageType (object_manager_protocol gen))
         (word_of_int (MessageType_MIN (object_manager_protocol gen)))
         (word_of_int (MessageType_MAX (object_manager_protocol gen)))"
  let ?start = "bootstrap gen env sock ip nmc omc"
  have a: "?nm_table = None \<longrightarrow> ?start = None"
    by (simp add: bootstrap_def static_init_eq)
  have b: "\<forall>f. ?nm_table = Some (Inl f) \<longrightarrow> ?start = Some (Inl (f, []))"
    by (simp add: bootstrap_def static_init_eq)
  have c: "\<forall>nm. ?nm_table = Some (Inr nm) \<longrightarrow> (?om_table = None \<longrightarrow> ?start = None)"
    by (simp add: bootstrap_def static_init_eq)
  have d: "\<forall>nm. ?nm_table = Some (Inr nm) \<longrightarrow>
      (\<forall>f. ?om_table = Some (Inl f) \<longrightarrow> ?start = Some (Inl (f, [TableBuilt nm])))"
    by (simp add: bootstrap_def static_init_eq)
  have e: "\<exists>f. ?start = Some (Inl (f, [TableBuilt nm, TableBuilt om]))
        \<and> f \<in> {SubsystemThrew, AcceptorThrew LocalAcceptor,
                AcceptorThrew ObjectManagerAcceptor, AcceptorThrew NodeManagerAcceptor}"
    if tables: "?nm_table = Some (Inr nm)" "?om_table = Some (Inr om)"
      and throws: "\<not> subsystems_built env \<or> \<not> local_bound env sock
        \<or> bound_port env ObjectManagerAcceptor
             (ucast (ObjectManagerConfig.object_manager_port omc)) = None
        \<or> bound_port env NodeManagerAcceptor
             (ucast (NodeManagerConfig.node_manager_port nmc)) = None"
    for nm om
  proof -
    from Raylet_ctor_throws [OF throws, of ip "[TableBuilt nm, TableBuilt om]"]
    obtain f where "Raylet_ctor env sock ip nmc omc [TableBuilt nm, TableBuilt om] =
        Inl (f, [TableBuilt nm, TableBuilt om])"
      and "f \<in> {SubsystemThrew, AcceptorThrew LocalAcceptor,
                AcceptorThrew ObjectManagerAcceptor, AcceptorThrew NodeManagerAcceptor}"
      by blast
    then show ?thesis
      by (simp add: bootstrap_def static_init_eq tables)
  qed
  have g: "\<exists>status r rest.
       RegisterGcs env ip sock (store_socket_name omc) nmc
         \<lparr>socket_name = sock,
          object_manager_acceptor = om_port,
          node_manager_acceptor = nm_port,
          pending = (\<lambda>a. 1),
          trace = [TableBuilt nm, TableBuilt om,
                   AsyncAccept LocalAcceptor, AsyncAccept ObjectManagerAcceptor,
                   AsyncAccept NodeManagerAcceptor]\<rparr> = (status, r)
       \<and> trace r = [TableBuilt nm, TableBuilt om,
                    AsyncAccept LocalAcceptor, AsyncAccept ObjectManagerAcceptor,
                    AsyncAccept NodeManagerAcceptor, GcsAttach] @ rest
       \<and> (\<forall>a. AsyncAccept a \<notin> set rest) \<and> (\<forall>t. TableBuilt t \<notin> set rest)
       \<and> ?start =
           Some (if ok status
                 then Inr (\<lparr>node_manager_message_enum = nm,
                            object_manager_message_enum = om\<rparr>, r)
                 else Inl (BadStatus status, trace r))"
    if tables: "?nm_table = Some (Inr nm)" "?om_table = Some (Inr om)"
      and bound: "subsystems_built env \<and> local_bound env sock
        \<and> bound_port env ObjectManagerAcceptor
             (ucast (ObjectManagerConfig.object_manager_port omc)) = Some om_port
        \<and> bound_port env NodeManagerAcceptor
             (ucast (NodeManagerConfig.node_manager_port nmc)) = Some nm_port"
    for nm om om_port nm_port
  proof -
    let ?r3 = "\<lparr>socket_name = sock,
          object_manager_acceptor = om_port,
          node_manager_acceptor = nm_port,
          pending = (\<lambda>a. 1),
          trace = [TableBuilt nm, TableBuilt om,
                   AsyncAccept LocalAcceptor, AsyncAccept ObjectManagerAcceptor,
                   AsyncAccept NodeManagerAcceptor]\<rparr> :: 'c Raylet"
    let ?run = "RegisterGcs env ip sock (store_socket_name omc) nmc ?r3"
    have r3: "after_accepts sock om_port nm_port [TableBuilt nm, TableBuilt om] = ?r3"
      by (simp add: after_accepts_def)
    have ctor: "Raylet_ctor env sock ip nmc omc [TableBuilt nm, TableBuilt om] =
       (case ?run of (status, r) \<Rightarrow> if ok status then Inr r else Inl (BadStatus status, trace r))"
      using bound unfolding r3 [symmetric] by (intro Raylet_ctor_bound) simp_all
    obtain rest where rest: "trace (snd ?run) = trace ?r3 @ GcsAttach # rest"
      and quiet: "\<forall>a. AsyncAccept a \<notin> set rest" "\<forall>t. TableBuilt t \<notin> set rest"
      using RegisterGcs_trace_shape [of env ip sock "store_socket_name omc" nmc ?r3]
      by blast
    have start: "?start =
        Some (if ok (fst ?run)
              then Inr (\<lparr>node_manager_message_enum = nm, object_manager_message_enum = om\<rparr>,
                        snd ?run)
              else Inl (BadStatus (fst ?run), trace (snd ?run)))"
      by (simp add: bootstrap_def static_init_eq tables ctor split: prod.splits)
    have shape: "trace (snd ?run) = [TableBuilt nm, TableBuilt om,
                    AsyncAccept LocalAcceptor, AsyncAccept ObjectManagerAcceptor,
                    AsyncAccept NodeManagerAcceptor, GcsAttach] @ rest"
      using rest by simp
    show ?thesis
      using shape quiet start
      by (intro exI [of _ "fst ?run"] exI [of _ "snd ?run"] exI [of _ rest]) simp
  qed
  show ?thesis
    unfolding Let_def using a b c d e g by blast
qed

theorem bootstrap_sequence_witness:
  "(\<exists>r. bootstrap sample_generated (sample_env OK OK OK) ''/tmp/x.sock'' ''10.0.0.1''
          sample_config sample_om_config = Some (Inr (sample_statics, r))
        \<and> take 6 (trace r) =
            [TableBuilt [''EmptyMessageType'', ''A'', ''B''], TableBuilt [''EmptyMessageType'', ''X''],
             AsyncAccept LocalAcceptor, AsyncAccept ObjectManagerAcceptor,
             AsyncAccept NodeManagerAcceptor, GcsAttach])
   \<and> (\<exists>stopped. bootstrap sample_generated (sample_env (NotOK ''attach'') OK OK) ''/tmp/x.sock''
          ''10.0.0.1'' sample_config sample_om_config =
            Some (Inl (BadStatus (NotOK ''attach''), stopped))
        \<and> take 6 stopped =
            [TableBuilt [''EmptyMessageType'', ''A'', ''B''], TableBuilt [''EmptyMessageType'', ''X''],
             AsyncAccept LocalAcceptor, AsyncAccept ObjectManagerAcceptor,
             AsyncAccept NodeManagerAcceptor, GcsAttach])
   \<and> (\<exists>f. bootstrap sample_generated (sample_env OK OK OK) ''/tmp/x.sock'' ''10.0.0.1''
          (sample_config\<lparr>NodeManagerConfig.node_manager_port := 80\<rparr>) sample_om_config =
        Some (Inl (f, [TableBuilt [''EmptyMessageType'', ''A'', ''B''],
                       TableBuilt [''EmptyMessageType'', ''X'']])))"
proof -
  let ?nm = "[''EmptyMessageType'', ''A'', ''B'']"
  let ?om = "[''EmptyMessageType'', ''X'']"
  let ?six = "[TableBuilt ?nm, TableBuilt ?om, AsyncAccept LocalAcceptor,
      AsyncAccept ObjectManagerAcceptor, AsyncAccept NodeManagerAcceptor, GcsAttach] :: nat event list"
  have cfg: "NodeManagerConfig.node_manager_port sample_config = 0"
    "ObjectManagerConfig.object_manager_port sample_om_config = 0"
    by (simp_all add: sample_config_def sample_om_config_def)
  have statics: "\<lparr>node_manager_message_enum = ?nm, object_manager_message_enum = ?om\<rparr> =
      sample_statics"
    by (simp add: sample_statics_def)
  have run: "\<exists>status r rest.
      RegisterGcs (sample_env a c h) ''10.0.0.1'' ''/tmp/x.sock''
             (store_socket_name sample_om_config) sample_config
             \<lparr>socket_name = ''/tmp/x.sock'', object_manager_acceptor = 40001,
              node_manager_acceptor = 40002, pending = (\<lambda>a. 1),
              trace = [TableBuilt ?nm, TableBuilt ?om, AsyncAccept LocalAcceptor,
                       AsyncAccept ObjectManagerAcceptor, AsyncAccept NodeManagerAcceptor]\<rparr> =
        (status, r)
      \<and> trace r = ?six @ rest
      \<and> (\<forall>a. AsyncAccept a \<notin> set rest) \<and> (\<forall>t. TableBuilt t \<notin> set rest)
      \<and> bootstrap sample_generated (sample_env a c h) ''/tmp/x.sock'' ''10.0.0.1''
          sample_config sample_om_config =
            Some (if ok status
                  then Inr (\<lparr>node_manager_message_enum = ?nm,
                             object_manager_message_enum = ?om\<rparr>, r)
                  else Inl (BadStatus status, trace r))" for a c h
    using bootstrap_sequence [of sample_generated "sample_env a c h" "''/tmp/x.sock''"
        "''10.0.0.1''" sample_config sample_om_config]
    unfolding Let_def sample_tables
    by (simp only: cfg sample_env_simps ucast_0 option.inject sum.inject simp_thms)
  have good: "\<exists>r. bootstrap sample_generated (sample_env OK OK OK) ''/tmp/x.sock'' ''10.0.0.1''
          sample_config sample_om_config = Some (Inr (sample_statics, r))
        \<and> take 6 (trace r) = ?six"
  proof -
    from run [of OK OK OK] obtain status r rest
      where reg: "RegisterGcs (sample_env OK OK OK) ''10.0.0.1'' ''/tmp/x.sock''
             (store_socket_name sample_om_config) sample_config
             \<lparr>socket_name = ''/tmp/x.sock'', object_manager_acceptor = 40001,
              node_manager_acceptor = 40002, pending = (\<lambda>a. 1),
              trace = [TableBuilt ?nm, TableBuilt ?om, AsyncAccept LocalAcceptor,
                       AsyncAccept ObjectManagerAcceptor, AsyncAccept NodeManagerAcceptor]\<rparr> =
        (status, r)"
        and tr: "trace r = ?six @ rest"
        and start: "bootstrap sample_generated (sample_env OK OK OK) ''/tmp/x.sock'' ''10.0.0.1''
          sample_config sample_om_config =
            Some (if ok status
                  then Inr (\<lparr>node_manager_message_enum = ?nm,
                             object_manager_message_enum = ?om\<rparr>, r)
                  else Inl (BadStatus status, trace r))"
      by blast
    from reg [THEN arg_cong, of fst] have "status = OK"
      by (simp add: sample_status)
    with start tr show ?thesis
      by (simp add: statics)
  qed
  have bad: "\<exists>stopped. bootstrap sample_generated (sample_env (NotOK ''attach'') OK OK)
          ''/tmp/x.sock'' ''10.0.0.1'' sample_config sample_om_config =
            Some (Inl (BadStatus (NotOK ''attach''), stopped))
        \<and> take 6 stopped = ?six"
  proof -
    from run [of "NotOK ''attach''" OK OK] obtain status r rest
      where reg: "RegisterGcs (sample_env (NotOK ''attach'') OK OK) ''10.0.0.1'' ''/tmp/x.sock''
             (store_socket_name sample_om_config) sample_config
             \<lparr>socket_name = ''/tmp/x.sock'', object_manager_acceptor = 40001,
              node_manager_acceptor = 40002, pending = (\<lambda>a. 1),
              trace = [TableBuilt ?nm, TableBuilt ?om, AsyncAccept LocalAcceptor,
                       AsyncAccept ObjectManagerAcceptor, AsyncAccept NodeManagerAcceptor]\<rparr> =
        (status, r)"
        and tr: "trace r = ?six @ rest"
        and start: "bootstrap sample_generated (sample_env (NotOK ''attach'') OK OK)
          ''/tmp/x.sock'' ''10.0.0.1'' sample_config sample_om_config =
            Some (if ok status
                  then Inr (\<lparr>node_manager_message_enum = ?nm,
                             object_manager_message_enum = ?om\<rparr>, r)
                  else Inl (BadStatus status, trace r))"
      by blast
    from reg [THEN arg_cong, of fst] have "status = NotOK ''attach''"
      by (simp add: sample_status)
    with start tr show ?thesis
      by simp
  qed
  have port80: "NodeManagerConfig.node_manager_port
      (sample_config\<lparr>NodeManagerConfig.node_manager_port := 80\<rparr>) = 80"
    by simp
  have thrown: "\<exists>f. bootstrap sample_generated (sample_env OK OK OK) ''/tmp/x.sock'' ''10.0.0.1''
          (sample_config\<lparr>NodeManagerConfig.node_manager_port := 80\<rparr>) sample_om_config =
        Some (Inl (f, [TableBuilt ?nm, TableBuilt ?om]))"
    using bootstrap_sequence [of sample_generated "sample_env OK OK OK" "''/tmp/x.sock''"
        "''10.0.0.1''" "sample_config\<lparr>NodeManagerConfig.node_manager_port := 80\<rparr>"
        sample_om_config]
    unfolding Let_def sample_tables port80
    by (simp add: cfg sample_env_simps) blast
  from good bad thrown show ?thesis
    by (intro conjI)
qed

end
